theory Spec2Isabelle
  imports Main "HOL-Library.Word"
begin

unbundle bit_operations_syntax

section \<open>Objects: a type tag followed by payload bytes\<close>

text \<open>
  Every runtime value is a tagged record in the heap: the tag (\<open>object::id\<close>) and a
  payload of bytes. The identifiers below are the ones the modelled source files name;
  every other identifier of the interpreter is \<open>ID_other n\<close>.
\<close>

type_synonym byte = "8 word"

datatype object_id =
    ID_object
  | ID_integer | ID_neg_integer
  | ID_hex_integer | ID_dec_integer | ID_oct_integer | ID_bin_integer | ID_based_integer
  | ID_bignum | ID_neg_bignum
  | ID_hex_bignum | ID_dec_bignum | ID_oct_bignum | ID_bin_bignum | ID_based_bignum
  | ID_fraction | ID_neg_fraction | ID_big_fraction | ID_neg_big_fraction
  | ID_decimal32 | ID_decimal64 | ID_decimal128
  | ID_local | ID_locals
  | ID_other nat

record object =
  type :: object_id
  payload :: "byte list"

subsection \<open>LEB128\<close>

text \<open>
  Modelled from the spec: the functions \<open>leb128(p, value)\<close> (writer) and
  \<open>leb128<Int>(p)\<close> (reader) of the interpreter are not among the source files. The
  specification describes the encoding as "a compact variable-length integer encoding
  (7 bits per byte, continuation bit)": the value is cut into groups of 7 bits, least
  significant group first, and every byte but the last has its top bit set.
  The reader returns the value and the bytes after it, as the source's reader advances
  its pointer argument.
\<close>

function leb128_write :: "nat \<Rightarrow> byte list" where
  "leb128_write v =
     (if v div 128 = 0 then [of_nat (v mod 128)]
      else of_nat (v mod 128 + 128) # leb128_write (v div 128))"
  by pat_completeness auto
termination
  by (relation "measure (\<lambda>v. v)") auto

fun leb128_loop :: "nat \<Rightarrow> nat \<Rightarrow> byte list \<Rightarrow> nat \<times> byte list" where
  "leb128_loop shift result [] = (result, [])"
| "leb128_loop shift result (b # bs) =
     (let result' = result + (unat b mod 128) * 2 ^ shift
      in if 128 \<le> unat b then leb128_loop (shift + 7) result' bs else (result', bs))"

definition leb128_read :: "byte list \<Rightarrow> nat \<times> byte list" where
  "leb128_read p = leb128_loop 0 0 p"


section \<open>Numeric promotion (algebraic.cc)\<close>

subsection \<open>Values read from and written to objects\<close>

text \<open>
  Modelled from the spec: the accessors \<open>integer::value<ularge>()\<close> and
  \<open>bignum::value(&size)\<close> are not among the source files. By the specification a
  payload is "type-specific, varint-prefixed where variable-length", and a big integer
  has a "byte-oriented magnitude": a machine integer holds the LEB128 encoding of its
  magnitude, read into 64 bits; a big integer holds the LEB128 count of its magnitude
  bytes and then the bytes, least significant first. A decimal object holds the bytes of
  its \<open>bid32\<close>, \<open>bid64\<close> or \<open>bid128\<close> value.
\<close>

definition integer_value :: "object \<Rightarrow> 64 word" where
  "integer_value i = of_nat (fst (leb128_read (payload i)))"

definition bignum_value :: "object \<Rightarrow> byte list" where
  "bignum_value num = (case leb128_read (payload num) of (sz, n) \<Rightarrow> take sz n)"

text \<open>
  The decimal arithmetic itself is Intel's library, and the constructors of the 32-bit
  and 64-bit decimal objects are in files that are not modelled here; both are parameters
  of the model. The fields are named after the library function or the constructor they
  stand for; each constructor field returns the payload bytes of the object it builds.
\<close>

record bidlib =
  bid128_from_uint32 :: "32 word \<Rightarrow> 128 word"
  bid128_mul :: "128 word \<Rightarrow> 128 word \<Rightarrow> 128 word"
  bid128_add :: "128 word \<Rightarrow> 128 word \<Rightarrow> 128 word"
  bid128_negate :: "128 word \<Rightarrow> 128 word"
  bid128_bytes :: "128 word \<Rightarrow> byte list"
  decimal32_of_ularge :: "64 word \<Rightarrow> bool \<Rightarrow> byte list"
  decimal64_of_ularge :: "64 word \<Rightarrow> bool \<Rightarrow> byte list"
  decimal128_of_ularge :: "64 word \<Rightarrow> bool \<Rightarrow> byte list"
  decimal32_of_bignum :: "object \<Rightarrow> byte list"
  decimal64_of_bignum :: "object \<Rightarrow> byte list"
  decimal64_of_bid32 :: "byte list \<Rightarrow> byte list"
  decimal128_of_bid32 :: "byte list \<Rightarrow> byte list"
  decimal64_of_bid64 :: "byte list \<Rightarrow> byte list"
  decimal128_of_bid64 :: "byte list \<Rightarrow> byte list"

text \<open>
  \<open>decimal128::decimal128(bignum_p num, id type)\<close>: Horner's scheme in base 256 over
  the magnitude bytes, most significant byte first, then the sign.
\<close>

fun decimal128_bignum_loop :: "bidlib \<Rightarrow> 128 word \<Rightarrow> byte list \<Rightarrow> 128 word" where
  "decimal128_bignum_loop lib result [] = result"
| "decimal128_bignum_loop lib result (digits # n) =
     decimal128_bignum_loop lib
       (bid128_add lib (bid128_mul lib result (bid128_from_uint32 lib 256))
                       (bid128_from_uint32 lib (ucast digits))) n"

definition decimal128_of_bignum :: "bidlib \<Rightarrow> object \<Rightarrow> object_id \<Rightarrow> object" where
  "decimal128_of_bignum lib num ty =
     (let result = decimal128_bignum_loop lib (bid128_from_uint32 lib 0) (rev (bignum_value num));
          result = (if type num = ID_neg_bignum then bid128_negate lib result else result)
      in \<lparr>type = ty, payload = bid128_bytes lib result\<rparr>)"

text \<open>
  \<open>rt.make<T>(ty, args)\<close> allocates an object of type \<open>ty\<close> built from the
  arguments. Allocation is taken to succeed: running out of memory is outside this model.
\<close>

definition rt_make :: "object_id \<Rightarrow> byte list \<Rightarrow> object" where
  "rt_make ty bytes = \<lparr>type = ty, payload = bytes\<rparr>"

subsection \<open>Promotion to a named type\<close>

text \<open>
  \<open>algebraic::real_promotion(algebraic_g &x, object::id type)\<close>. The reference
  parameter \<open>x\<close> is returned with the result of the function.
\<close>

definition real_promotion :: "bidlib \<Rightarrow> object \<Rightarrow> object_id \<Rightarrow> object \<times> bool" where
  "real_promotion lib x ty =
     (let xt = type x in
      if xt = ty then (x, True)
      else case xt of
        ID_integer \<Rightarrow>
          (let ival = integer_value x in
           case ty of
             ID_decimal32 \<Rightarrow> (rt_make ID_decimal32 (decimal32_of_ularge lib ival False), True)
           | ID_decimal64 \<Rightarrow> (rt_make ID_decimal64 (decimal64_of_ularge lib ival False), True)
           | ID_decimal128 \<Rightarrow> (rt_make ID_decimal128 (decimal128_of_ularge lib ival False), True)
           | _ \<Rightarrow> (x, False))
      | ID_neg_integer \<Rightarrow>
          (let ival = integer_value x in
           case ty of
             ID_decimal32 \<Rightarrow> (rt_make ID_decimal32 (decimal32_of_ularge lib ival True), True)
           | ID_decimal64 \<Rightarrow> (rt_make ID_decimal64 (decimal64_of_ularge lib ival True), True)
           | ID_decimal128 \<Rightarrow> (rt_make ID_decimal128 (decimal128_of_ularge lib ival True), True)
           | _ \<Rightarrow> (x, False))
      | ID_bignum \<Rightarrow>
          (case ty of
             ID_decimal32 \<Rightarrow> (rt_make ID_decimal32 (decimal32_of_bignum lib x), True)
           | ID_decimal64 \<Rightarrow> (rt_make ID_decimal64 (decimal64_of_bignum lib x), True)
           | ID_decimal128 \<Rightarrow> (decimal128_of_bignum lib x ID_decimal128, True)
           | _ \<Rightarrow> (x, False))
      | ID_neg_bignum \<Rightarrow>
          (case ty of
             ID_decimal32 \<Rightarrow> (rt_make ID_decimal32 (decimal32_of_bignum lib x), True)
           | ID_decimal64 \<Rightarrow> (rt_make ID_decimal64 (decimal64_of_bignum lib x), True)
           | ID_decimal128 \<Rightarrow> (decimal128_of_bignum lib x ID_decimal128, True)
           | _ \<Rightarrow> (x, False))
      | ID_decimal32 \<Rightarrow>
          (let dval = payload x in
           case ty of
             ID_decimal64 \<Rightarrow> (rt_make ID_decimal64 (decimal64_of_bid32 lib dval), True)
           | ID_decimal128 \<Rightarrow> (rt_make ID_decimal128 (decimal128_of_bid32 lib dval), True)
           | _ \<Rightarrow> (x, False))
      | ID_decimal64 \<Rightarrow>
          (let dval = payload x in
           case ty of
             ID_decimal64 \<Rightarrow> (rt_make ID_decimal64 (decimal64_of_bid64 lib dval), True)
           | ID_decimal128 \<Rightarrow> (rt_make ID_decimal128 (decimal128_of_bid64 lib dval), True)
           | _ \<Rightarrow> (x, False))
      | _ \<Rightarrow> (x, False))"

subsection \<open>Promotion to the type chosen by the precision setting\<close>

text \<open>
  Modelled from the spec: the enumeration \<open>settings::display\<close> is not among the source
  files. The specification has the display modes "standard/significant-digits,
  fixed-decimals, scientific, engineering", and the scientific notation "always in
  scientific/engineering mode": the test \<open>mode >= settings::display::SCI\<close> of the
  source holds for \<open>SCI\<close> and \<open>ENG\<close>.
\<close>

datatype display = NORMAL | FIX | SCI | ENG

text \<open>
  The settings that the modelled functions read. Their declaration is not among the
  source files: the settings are a parameter of the model, with the fields that the
  sources name. \<open>exponent_char\<close> is a Unicode code point.
\<close>

record settings =
  precision :: "16 word"
  display_mode :: display
  displayed :: int
  max_nonsci :: int
  show_decimal :: bool
  decimal_dot :: char
  exponent_char :: nat

text \<open>
  \<open>algebraic::real_promotion(algebraic_g &x)\<close>. \<open>Settings.precision\<close> is a
  \<open>uint16_t\<close>. The constants \<open>BID32_MAXDIGITS\<close>, \<open>BID64_MAXDIGITS\<close> and
  \<open>BID128_MAXDIGITS\<close> are declared in headers that are not modelled; they are
  parameters.
\<close>

record maxdigits =
  BID32_MAXDIGITS :: nat
  BID64_MAXDIGITS :: nat
  BID128_MAXDIGITS :: nat

definition real_promotion_auto ::
  "bidlib \<Rightarrow> maxdigits \<Rightarrow> settings \<Rightarrow> object \<Rightarrow> object \<times> object_id" where
  "real_promotion_auto lib lim Settings x =
     (let prec = precision Settings;
          ty = (if unat prec > BID64_MAXDIGITS lim then ID_decimal128
                else if unat prec > BID32_MAXDIGITS lim then ID_decimal64
                else ID_decimal32)
      in case real_promotion lib x ty of
           (x', ok) \<Rightarrow> (x', if ok then ty else ID_object))"

text \<open>
  The pairs of distinct kinds for which the promotion has a case. Besides these, a value
  already of the target kind is left as it is, with success.
\<close>

definition widening_rule :: "object_id \<Rightarrow> object_id \<Rightarrow> bool" where
  "widening_rule src dst =
     (if src = ID_integer \<or> src = ID_neg_integer \<or> src = ID_bignum \<or> src = ID_neg_bignum
      then dst = ID_decimal32 \<or> dst = ID_decimal64 \<or> dst = ID_decimal128
      else if src = ID_decimal32 then dst = ID_decimal64 \<or> dst = ID_decimal128
      else if src = ID_decimal64 then dst = ID_decimal128
      else False)"

text \<open>
  An instance of the library parameters for evaluating the model on concrete objects
  where only the kinds matter: every decimal payload is filled with zero bytes of the
  right size.
\<close>

definition blank_bidlib :: bidlib where
  "blank_bidlib =
     \<lparr>bid128_from_uint32 = (\<lambda>v. ucast v),
      bid128_mul = (\<lambda>a b. a * b),
      bid128_add = (\<lambda>a b. a + b),
      bid128_negate = (\<lambda>a. - a),
      bid128_bytes = (\<lambda>v. replicate 16 0),
      decimal32_of_ularge = (\<lambda>v neg. replicate 4 0),
      decimal64_of_ularge = (\<lambda>v neg. replicate 8 0),
      decimal128_of_ularge = (\<lambda>v neg. replicate 16 0),
      decimal32_of_bignum = (\<lambda>num. replicate 4 0),
      decimal64_of_bignum = (\<lambda>num. replicate 8 0),
      decimal64_of_bid32 = (\<lambda>d. replicate 8 0),
      decimal128_of_bid32 = (\<lambda>d. replicate 16 0),
      decimal64_of_bid64 = (\<lambda>d. replicate 8 0),
      decimal128_of_bid64 = (\<lambda>d. replicate 16 0)\<rparr>"

text \<open>
  The coefficient lengths of the three decimal formats (7, 16 and 34 digits; the last is
  the "34 digits" of the comment on \<open>MAXBIDCHAR\<close>), for concrete evaluations.
\<close>

definition ieee_maxdigits :: maxdigits where
  "ieee_maxdigits = \<lparr>BID32_MAXDIGITS = 7, BID64_MAXDIGITS = 16, BID128_MAXDIGITS = 34\<rparr>"

text \<open>
  Settings for concrete evaluations: standard display mode, 34 digits of precision, 12
  displayed digits, scientific notation from \<open>1E12\<close>, a dot as decimal separator
  and \<open>E\<close> as exponent character; the trailing decimal separator is the argument.
\<close>

definition standard_settings :: "bool \<Rightarrow> settings" where
  "standard_settings showdec =
     \<lparr>precision = 34, display_mode = NORMAL, displayed = 12, max_nonsci = 12,
      show_decimal = showdec, decimal_dot = CHR ''.'', exponent_char = 69\<rparr>"

section \<open>Local variables (locals.h)\<close>

text \<open>
  A local variable name is an object holding the index of the local.
  \<open>local::local(uint index, id type = ID_local)\<close> writes the index into the payload;
  \<open>local::index()\<close> reads it back as a \<open>size_t\<close>, whose width depends on the
  target and is the type parameter \<open>'s\<close>.
\<close>

definition local_ctor :: "32 word \<Rightarrow> object" where
  "local_ctor index = \<lparr>type = ID_local, payload = leb128_write (unat index)\<rparr>"

definition local_required_memory :: "nat \<Rightarrow> 32 word \<Rightarrow> nat" where
  "local_required_memory i index =
     length (leb128_write i) + length (leb128_write (unat index))"

definition local_index :: "object \<Rightarrow> 's::len word" where
  "local_index l = of_nat (fst (leb128_read (payload l)))"

text \<open>
  Modelled from the spec: \<open>runtime::local(index)\<close>, which \<open>local::recall\<close> and
  \<open>local::store\<close> call, is not among the source files. The specification: "walks the
  active-frame stack from innermost outward, subtracting each frame's name count from
  index until the owning frame and its local slot are found; resolves to the value bound
  at that slot", and "an index that resolves beyond the outermost active frame is a
  use-after-scope error, must be detectably invalid". A frame is the list of the values
  bound to its names, in the order of the names; the stack of active frames has the
  innermost frame first. \<open>enter_frame\<close> pushes a frame and \<open>exit_frame\<close> pops it.
\<close>

datatype rt_error = InvalidLocal | TypeError

type_synonym 'v frame = "'v list"

fun rt_local :: "'v frame list \<Rightarrow> nat \<Rightarrow> rt_error + 'v" where
  "rt_local [] index = Inl InvalidLocal"
| "rt_local (f # frames) index =
     (if index < length f then Inr (f ! index) else rt_local frames (index - length f))"

fun rt_local_store :: "'v frame list \<Rightarrow> nat \<Rightarrow> 'v \<Rightarrow> rt_error + 'v frame list" where
  "rt_local_store [] index v = Inl InvalidLocal"
| "rt_local_store (f # frames) index v =
     (if index < length f then Inr (f[index := v] # frames)
      else case rt_local_store frames (index - length f) v of
             Inl e \<Rightarrow> Inl e
           | Inr frames' \<Rightarrow> Inr (f # frames'))"

definition enter_frame :: "'v frame \<Rightarrow> 'v frame list \<Rightarrow> 'v frame list" where
  "enter_frame f frames = f # frames"

definition exit_frame :: "'v frame list \<Rightarrow> 'v frame list" where
  "exit_frame frames = tl frames"

text \<open>
  \<open>local::recall\<close> and \<open>local::store\<close>, with the \<open>size_t\<close> of a 64-bit target.
\<close>

definition local_recall :: "object \<Rightarrow> 'v frame list \<Rightarrow> rt_error + 'v" where
  "local_recall l rt = rt_local rt (unat (local_index l :: 64 word))"

definition local_store :: "object \<Rightarrow> 'v \<Rightarrow> 'v frame list \<Rightarrow> rt_error + 'v frame list" where
  "local_store l obj rt = rt_local_store rt (unat (local_index l :: 64 word)) obj"

section \<open>Pixel coordinates (graphics.cc)\<close>

text \<open>
  The arithmetic on algebraic values (\<open>operator-\<close>, \<open>operator/\<close>, \<open>operator*\<close> on
  \<open>algebraic_g\<close>, \<open>is_zero\<close>, \<open>integer::make\<close>, \<open>as_int32\<close> and the value of a
  based number) is in files that are not modelled: these are parameters. A pointer that
  may be null is an \<open>object option\<close>; the operators take and return such pointers.
  \<open>fixed_based\<close> is the build option \<open>CONFIG_FIXED_BASED_OBJECTS\<close>.
\<close>

record arith =
  alg_sub :: "object option \<Rightarrow> object option \<Rightarrow> object option"
  alg_div :: "object option \<Rightarrow> object option \<Rightarrow> object option"
  alg_mul :: "object option \<Rightarrow> object option \<Rightarrow> object option"
  is_zero :: "object \<Rightarrow> bool"
  integer_make :: "int \<Rightarrow> object option"
  as_int32 :: "object \<Rightarrow> int"
  based_value :: "object \<Rightarrow> int"
  fixed_based :: bool

text \<open>
  \<open>PlotParameters::pixel_adjust\<close>. The result is the coordinate and whether
  \<open>rt.type_error()\<close> was raised. The divisor of the division is computed by
  \<open>pixel_range\<close>, the first statements of the branch for real numbers up to and
  including the guard against a division by zero.
\<close>

definition pixel_range :: "arith \<Rightarrow> object option \<Rightarrow> object option \<Rightarrow> object option" where
  "pixel_range ar min' max' =
     (let range = alg_sub ar max' min'
      in if range = None \<or> is_zero ar (the range) then integer_make ar 1 else range)"

definition pixel_adjust ::
  "arith \<Rightarrow> object option \<Rightarrow> object option \<Rightarrow> object option \<Rightarrow> 32 word \<Rightarrow> bool
     \<Rightarrow> int \<times> bool" where
  "pixel_adjust ar obj min' max' scale isSize =
     (case obj of
        None \<Rightarrow> (0, False)
      | Some o' \<Rightarrow>
          (let ty = type o' in
           if ty = ID_integer \<or> ty = ID_neg_integer \<or> ty = ID_bignum \<or> ty = ID_neg_bignum
              \<or> ty = ID_fraction \<or> ty = ID_neg_fraction
              \<or> ty = ID_big_fraction \<or> ty = ID_neg_big_fraction
              \<or> ty = ID_decimal32 \<or> ty = ID_decimal64 \<or> ty = ID_decimal128
           then
             (let range = pixel_range ar min' max';
                  pos = Some o';
                  sa = integer_make ar (uint scale);
                  pos = (if \<not> isSize then alg_sub ar pos min' else pos);
                  pos = alg_mul ar (alg_div ar pos range) sa
              in case pos of None \<Rightarrow> (0, False) | Some p \<Rightarrow> (as_int32 ar p, False))
           else if ty = ID_based_integer
                   \<or> fixed_based ar \<and> (ty = ID_hex_integer \<or> ty = ID_dec_integer
                                           \<or> ty = ID_oct_integer \<or> ty = ID_bin_integer)
           then (based_value ar o', False)
           else if ty = ID_based_bignum
                   \<or> fixed_based ar \<and> (ty = ID_hex_bignum \<or> ty = ID_dec_bignum
                                           \<or> ty = ID_oct_bignum \<or> ty = ID_bin_bignum)
           then (based_value ar o', False)
           else (0, True)))"

text \<open>
  An instance of the arithmetic parameters on machine integers, for evaluating
  \<open>pixel_adjust\<close> on concrete objects: an integer object holds its LEB128 magnitude,
  the division truncates and gives a null pointer for a zero divisor.
\<close>

definition integer_of_object :: "object \<Rightarrow> int" where
  "integer_of_object i =
     (if type i = ID_neg_integer then - int (fst (leb128_read (payload i)))
      else int (fst (leb128_read (payload i))))"

definition object_of_integer :: "int \<Rightarrow> object" where
  "object_of_integer v =
     (if v < 0 then \<lparr>type = ID_neg_integer, payload = leb128_write (nat (- v))\<rparr>
      else \<lparr>type = ID_integer, payload = leb128_write (nat v)\<rparr>)"

definition integer_arith :: arith where
  "integer_arith =
     \<lparr>alg_sub = (\<lambda>x y. case (x, y) of
                   (Some a, Some b) \<Rightarrow>
                     Some (object_of_integer (integer_of_object a - integer_of_object b))
                 | _ \<Rightarrow> None),
      alg_div = (\<lambda>x y. case (x, y) of
                   (Some a, Some b) \<Rightarrow>
                     if integer_of_object b = 0 then None
                     else Some (object_of_integer
                            (sgn (integer_of_object a) * sgn (integer_of_object b)
                             * (\<bar>integer_of_object a\<bar> div \<bar>integer_of_object b\<bar>)))
                 | _ \<Rightarrow> None),
      alg_mul = (\<lambda>x y. case (x, y) of
                   (Some a, Some b) \<Rightarrow>
                     Some (object_of_integer (integer_of_object a * integer_of_object b))
                 | _ \<Rightarrow> None),
      is_zero = (\<lambda>a. integer_of_object a = 0),
      integer_make = (\<lambda>v. Some (object_of_integer v)),
      as_int32 = integer_of_object,
      based_value = integer_of_object,
      fixed_based = False\<rparr>"

section \<open>Decimal numbers: parsing (decimal128.cc)\<close>

subsection \<open>Text and the C library\<close>

text \<open>
  A text is the list of its bytes up to the terminating zero byte, which is not part of
  the list: reading at the length of the list gives the zero byte. Characters are
  compared by their codes, as unsigned bytes.
\<close>

definition peek :: "string \<Rightarrow> nat \<Rightarrow> char" where
  "peek src i = (if i < length src then src ! i else char_of (0 :: nat))"

definition code :: "char \<Rightarrow> nat" where
  "code c = of_char c"

definition isdigit :: "char \<Rightarrow> bool" where
  "isdigit c = (code (CHR ''0'') \<le> code c \<and> code c \<le> code (CHR ''9''))"

definition isspace :: "char \<Rightarrow> bool" where
  "isspace c = (code c = 32 \<or> 9 \<le> code c \<and> code c \<le> 13)"

definition tolower :: "char \<Rightarrow> char" where
  "tolower c =
     (if code (CHR ''A'') \<le> code c \<and> code c \<le> code (CHR ''Z'') then char_of (code c + 32)
      else c)"

text \<open>
  \<open>strncasecmp\<close>: compares at most \<open>n\<close> characters without regard to case and
  stops at the end of either text.
\<close>

fun strncasecmp :: "string \<Rightarrow> string \<Rightarrow> nat \<Rightarrow> int" where
  "strncasecmp s1 s2 0 = 0"
| "strncasecmp s1 s2 (Suc n) =
     (let c1 = tolower (peek s1 0); c2 = tolower (peek s2 0)
      in if c1 \<noteq> c2 then int (code c1) - int (code c2)
         else if code c1 = 0 then 0
         else strncasecmp (tl s1) (tl s2) n)"

text \<open>
  \<open>atoi(str)\<close> is \<open>(int) strtol(str, NULL, 10)\<close>. \<open>strtol\<close> skips white space,
  reads an optional sign and then digits up to the first character that is not one; a
  number outside the range of a \<open>long\<close> (64 bits) is replaced by \<open>LONG_MIN\<close> or
  \<open>LONG_MAX\<close>. The conversion to the 32-bit \<open>int\<close> in which the sources store the
  result keeps the low 32 bits: \<open>atoi\<close> of \<open>4294967296\<close> is 0.
\<close>

fun strtol_digits :: "int \<Rightarrow> string \<Rightarrow> int" where
  "strtol_digits acc [] = acc"
| "strtol_digits acc (c # cs) =
     (if isdigit c then strtol_digits (acc * 10 + (int (code c) - int (code (CHR ''0'')))) cs
      else acc)"

definition strtol :: "string \<Rightarrow> int" where
  "strtol str =
     (let v = (case dropWhile isspace str of
                 [] \<Rightarrow> 0
               | c # cs \<Rightarrow>
                   if c = CHR ''-'' then - strtol_digits 0 cs
                   else if c = CHR ''+'' then strtol_digits 0 cs
                   else strtol_digits 0 (c # cs))
      in if v < - (2 ^ 63) then - (2 ^ 63) else if v > 2 ^ 63 - 1 then 2 ^ 63 - 1 else v)"

definition atoi :: "string \<Rightarrow> int" where
  "atoi str = sint (word_of_int (strtol str) :: 32 word)"

text \<open>
  The UTF-8 functions of the interpreter are in a file that is not modelled; they are
  parameters. \<open>utf8_codepoint src i\<close> is the code point that starts at offset
  \<open>i\<close> of the text, \<open>utf8_next src i\<close> the offset of the next one, and
  \<open>utf8_encode cp\<close> the bytes of a code point.
\<close>

record utf8 =
  utf8_codepoint :: "string \<Rightarrow> nat \<Rightarrow> nat"
  utf8_next :: "string \<Rightarrow> nat \<Rightarrow> nat"
  utf8_encode :: "nat \<Rightarrow> string"

subsection \<open>The parser\<close>

text \<open>
  The parser's argument: the source text, the length to parse and the precedence
  (negative inside an equation). Offsets into the source stand for the pointers.
\<close>

record parser =
  p_source :: string
  p_length :: nat
  p_precedence :: int

datatype parse_error = mantissa_error | exponent_error | exponent_range_error

text \<open>
  The result: \<open>SKIP\<close>; \<open>WARN\<close> or \<open>ERROR\<close> with the error raised and the offset
  given to its \<open>source\<close>; or \<open>OK\<close> with \<open>p.end\<close> and the text handed to the
  decimal library to build \<open>p.out\<close>.
\<close>

datatype result =
    SKIP
  | WARN parse_error nat
  | ERROR parse_error nat
  | OK nat string


fun is_ERROR :: "result \<Rightarrow> bool" where
  "is_ERROR (ERROR e pos) = True"
| "is_ERROR r = False"

text \<open>The loop \<open>while (s < last && (*s >= '0' && *s <= '9')) s++\<close>.\<close>

function skip_digits :: "string \<Rightarrow> nat \<Rightarrow> nat \<Rightarrow> nat" where
  "skip_digits src last' s =
     (if s < last' \<and> isdigit (peek src s) then skip_digits src last' (Suc s) else s)"
  by pat_completeness auto
termination
  by (relation "measure (\<lambda>(src, last', s). last' - s)") auto

declare skip_digits.simps [simp del]

text \<open>
  The file is the text of the three decimal parsers: the ones for 64 and 32 bits are
  this one with 128 replaced by the width, as the conditions \<open>128 == 127+1\<close> and
  \<open>128 == 63+1\<close> of the source show. The width \<open>w\<close> is a parameter of the model.
\<close>

definition BID_MAXDIGITS :: "maxdigits \<Rightarrow> nat \<Rightarrow> nat" where
  "BID_MAXDIGITS lim w =
     (if w = 128 then BID128_MAXDIGITS lim
      else if w = 64 then BID64_MAXDIGITS lim
      else BID32_MAXDIGITS lim)"

definition maxexp :: "nat \<Rightarrow> int" where
  "maxexp w = (if w = 127 + 1 then 6144 else if w = 63 + 1 then 384 else 96)"

text \<open>
  The loop that patches the input for the decimal library: \<open>u\<close> is the offset read,
  \<open>b\<close> the number of characters written into the buffer of 50. At the exponent
  character, \<open>u = utf8_next(u) - 1\<close> and the increment of the loop leave \<open>u\<close> at
  \<open>utf8_next(u)\<close>.
\<close>

function patch :: "utf8 \<Rightarrow> settings \<Rightarrow> string \<Rightarrow> nat \<Rightarrow> nat \<Rightarrow> nat \<Rightarrow> string" where
  "patch U Settings src s u b =
     (if u < s \<and> b < 50 - 1 then
        (if peek src u = decimal_dot Settings then
           CHR ''.'' # patch U Settings src s (u + 1) (b + 1)
         else if utf8_codepoint U src u = exponent_char Settings then
           CHR ''E'' # patch U Settings src s (utf8_next U src u) (b + 1)
         else
           peek src u # patch U Settings src s (u + 1) (b + 1))
      else [])"
  by pat_completeness auto
termination
  by (relation "measure (\<lambda>(U, Settings, src, s, u, b). 49 - b)") auto

declare patch.simps [simp del]

text \<open>
  The mantissa: the offset \<open>digits\<close> of its first character and, after the digits and
  the decimal dot, the offset \<open>s\<close> and \<open>hadDecimalDot\<close>.
\<close>

definition leading_sign :: "string \<Rightarrow> bool" where
  "leading_sign src = (peek src 0 = CHR ''+'' \<or> peek src 0 = CHR ''-'')"

definition scan_mantissa :: "parser \<Rightarrow> nat \<times> nat \<times> bool" where
  "scan_mantissa p =
     (let src = p_source p; last' = p_length p;
          digits = (if leading_sign src then 1 else 0);
          s = skip_digits src last' digits;
          hadDecimalDot = (peek src s = CHR ''.'' \<or> peek src s = CHR '','');
          s = (if hadDecimalDot then skip_digits src last' (s + 1) else s)
      in (digits, s, hadDecimalDot))"

definition special_name :: "string \<Rightarrow> bool" where
  "special_name str =
     (\<not> (strncasecmp str ''inf'' 3 \<noteq> 0
         \<and> strncasecmp str [char_of (0xE2 :: nat), char_of (0x88 :: nat), char_of (0x9E :: nat)] 3 \<noteq> 0
         \<and> strncasecmp str ''NaN'' 3 \<noteq> 0))"

definition exponent_marker :: "utf8 \<Rightarrow> settings \<Rightarrow> string \<Rightarrow> nat \<Rightarrow> bool" where
  "exponent_marker U Settings src s =
     (peek src s = CHR ''e'' \<or> peek src s = CHR ''E''
      \<or> utf8_codepoint U src s = exponent_char Settings)"

text \<open>
  The exponent, read when \<open>s\<close> is at an exponent marker: the offset \<open>exponent\<close>
  after the marker, the offset \<open>expval\<close> after the optional sign, and \<open>s\<close> after
  the digits.
\<close>

definition scan_exponent :: "utf8 \<Rightarrow> parser \<Rightarrow> nat \<Rightarrow> nat \<times> nat \<times> nat" where
  "scan_exponent U p s =
     (let src = p_source p; last' = p_length p;
          s = utf8_next U src s;
          exponent = s;
          s = (if peek src s = CHR ''+'' \<or> peek src s = CHR ''-'' then s + 1 else s);
          expval = s;
          s = skip_digits src last' s
      in (exponent, expval, s))"

text \<open>\<open>OBJECT_PARSER_BODY(decimal128)\<close>.\<close>

definition decimal_parser ::
  "utf8 \<Rightarrow> settings \<Rightarrow> maxdigits \<Rightarrow> nat \<Rightarrow> parser \<Rightarrow> result" where
  "decimal_parser U Settings lim w p =
     (let src = p_source p in
      if leading_sign src \<and> p_precedence p < 0 then SKIP
      else
        case scan_mantissa p of (digits, s, hadDecimalDot) \<Rightarrow>
        if s = digits \<and> \<not> special_name (drop s src) then SKIP
        else
          let mantissa = s - digits - (if hadDecimalDot then 1 else 0) in
          if mantissa \<ge> BID_MAXDIGITS lim w then WARN mantissa_error (digits + BID_MAXDIGITS lim w)
          else if exponent_marker U Settings src s then
            (case scan_exponent U p s of (exponent, expval, s) \<Rightarrow>
               if s = expval then ERROR exponent_error s
               else
                 let expval = atoi (drop exponent src) in
                 if expval < - (maxexp w - 1) \<or> expval > maxexp w
                 then WARN exponent_range_error s
                 else OK s (patch U Settings src s 0 0))
          else OK s (patch U Settings src s 0 0))"

text \<open>
  What the parser has seen of an input, for stating its properties: whether it declines
  the input, the number of mantissa digits, the offset where the mantissa ends, whether
  an exponent marker follows it, whether that marker is followed by digits, and the value
  of the exponent.
\<close>

definition parser_skips :: "parser \<Rightarrow> bool" where
  "parser_skips p =
     (leading_sign (p_source p) \<and> p_precedence p < 0
      \<or> (case scan_mantissa p of (digits, s, hadDecimalDot) \<Rightarrow>
            s = digits \<and> \<not> special_name (drop s (p_source p))))"

definition mantissa_count :: "parser \<Rightarrow> nat" where
  "mantissa_count p =
     (case scan_mantissa p of (digits, s, hadDecimalDot) \<Rightarrow>
        s - digits - (if hadDecimalDot then 1 else 0))"

definition mantissa_end :: "parser \<Rightarrow> nat" where
  "mantissa_end p = (case scan_mantissa p of (digits, s, hadDecimalDot) \<Rightarrow> s)"

definition marker_present :: "utf8 \<Rightarrow> settings \<Rightarrow> parser \<Rightarrow> bool" where
  "marker_present U Settings p = exponent_marker U Settings (p_source p) (mantissa_end p)"

definition exponent_digits :: "utf8 \<Rightarrow> parser \<Rightarrow> bool" where
  "exponent_digits U p =
     (case scan_exponent U p (mantissa_end p) of (exponent, expval, s) \<Rightarrow> s \<noteq> expval)"

definition exponent_end :: "utf8 \<Rightarrow> parser \<Rightarrow> nat" where
  "exponent_end U p =
     (case scan_exponent U p (mantissa_end p) of (exponent, expval, s) \<Rightarrow> s)"


text \<open>
  UTF-8 as the standard defines it, for concrete evaluations: a code point is one byte
  below 128, otherwise a lead byte and its continuation bytes (\<open>0x80\<close> to \<open>0xBF\<close>).
\<close>

function skip_continuation :: "string \<Rightarrow> nat \<Rightarrow> nat" where
  "skip_continuation src i =
     (if i < length src \<and> 128 \<le> code (peek src i) \<and> code (peek src i) < 192
      then skip_continuation src (Suc i) else i)"
  by pat_completeness auto
termination
  by (relation "measure (\<lambda>(src, i). length src - i)") auto

declare skip_continuation.simps [simp del]

definition standard_utf8 :: utf8 where
  "standard_utf8 =
     \<lparr>utf8_codepoint = (\<lambda>src i.
        let c0 = code (peek src i); c1 = code (peek src (i + 1));
            c2 = code (peek src (i + 2)); c3 = code (peek src (i + 3))
        in if c0 < 128 then c0
           else if c0 div 32 = 6 then (c0 mod 32) * 64 + c1 mod 64
           else if c0 div 16 = 14 then ((c0 mod 16) * 64 + c1 mod 64) * 64 + c2 mod 64
           else if c0 div 8 = 30 then (((c0 mod 8) * 64 + c1 mod 64) * 64 + c2 mod 64) * 64 + c3 mod 64
           else c0),
      utf8_next = (\<lambda>src i. skip_continuation src (i + 1)),
      utf8_encode = (\<lambda>cp.
        if cp < 128 then [char_of cp]
        else if cp < 2048 then [char_of (192 + cp div 64), char_of (128 + cp mod 64)]
        else if cp < 65536 then
          [char_of (224 + cp div 4096), char_of (128 + cp div 64 mod 64), char_of (128 + cp mod 64)]
        else
          [char_of (240 + cp div 262144), char_of (128 + cp div 4096 mod 64),
           char_of (128 + cp div 64 mod 64), char_of (128 + cp mod 64)])\<rparr>"

section \<open>Decimal numbers: formatting (decimal128.cc)\<close>

subsection \<open>More of the C library\<close>

text \<open>\<open>strchr\<close>: the offset of the first occurrence of a character, if any.\<close>

fun strchr :: "string \<Rightarrow> char \<Rightarrow> nat option" where
  "strchr [] c = None"
| "strchr (x # xs) c =
     (if x = c then Some 0 else case strchr xs c of None \<Rightarrow> None | Some i \<Rightarrow> Some (Suc i))"

text \<open>
  \<open>strncpy(dst, src, n)\<close> on texts: the copy is terminated when the source is shorter
  than \<open>n\<close>; otherwise the first \<open>n\<close> bytes are replaced and the rest of the
  destination stays.
\<close>

definition strncpy :: "string \<Rightarrow> string \<Rightarrow> nat \<Rightarrow> string" where
  "strncpy dst src n = (if length src < n then src else take n src @ drop n dst)"

text \<open>The conversion \<open>%d\<close> of \<open>snprintf\<close>.\<close>

function print_nat :: "nat \<Rightarrow> string" where
  "print_nat n =
     (if n < 10 then [char_of (code (CHR ''0'') + n)]
      else print_nat (n div 10) @ [char_of (code (CHR ''0'') + n mod 10)])"
  by pat_completeness auto
termination
  by (relation "measure (\<lambda>n. n)") auto

declare print_nat.simps [simp del]

definition print_int :: "int \<Rightarrow> string" where
  "print_int i = (if i < 0 then CHR ''-'' # print_nat (nat (- i)) else print_nat (nat i))"

text \<open>The remainder of C's integer division, which truncates towards zero.\<close>

definition c_rem :: "int \<Rightarrow> int \<Rightarrow> int" where
  "c_rem a b = sgn a * (\<bar>a\<bar> mod \<bar>b\<bar>)"

subsection \<open>The state of one formatting attempt\<close>

text \<open>
  The local variables of the body of the loop of \<open>decimal_format\<close>. \<open>inp\<close> and
  \<open>last'\<close> are offsets into \<open>copy\<close> (the pointers \<open>in\<close> and \<open>last\<close>);
  \<open>out\<close> is the text written so far from the start of \<open>buf\<close>, so that the pointer
  \<open>out\<close> is at offset \<open>length out\<close>.
\<close>

record layout =
  negative :: bool
  inp :: nat
  last' :: nat
  realexp :: int
  hasexp :: bool
  dispexp :: int
  decpos :: int
  decimals :: int
  out :: string

definition MAXBIDCHAR :: nat where
  "MAXBIDCHAR = 48"

text \<open>
  The loop \<open>while (last > copy + 2 && last[-1] == '0')\<close>, which drops the trailing
  zeroes of the mantissa; \<open>bidexp\<close> is not read after it.
\<close>

function strip_zeroes :: "string \<Rightarrow> nat \<Rightarrow> int \<Rightarrow> nat \<times> int" where
  "strip_zeroes copy lst mexp =
     (if lst > 2 \<and> peek copy (lst - 1) = CHR ''0''
      then strip_zeroes copy (lst - 1) (mexp - 1)
      else (lst, mexp))"
  by pat_completeness auto
termination
  by (relation "measure (\<lambda>(copy, lst, mexp). lst)") auto

declare strip_zeroes.simps [simp del]

text \<open>The loop \<open>for (int zeroes = realexp + 1; zeroes < 0; zeroes++)\<close>.\<close>

function leading_zeroes :: "int \<Rightarrow> layout \<Rightarrow> layout" where
  "leading_zeroes zeroes l =
     (if zeroes < 0
      then leading_zeroes (zeroes + 1) (l\<lparr>out := out l @ ''0'', decimals := decimals l - 1\<rparr>)
      else l)"
  by pat_completeness auto
termination
  by (relation "measure (\<lambda>(zeroes, l). nat (- zeroes))") auto

declare leading_zeroes.simps [simp del]

text \<open>
  From the offset of the exponent to the loop that copies the digits: the sign, the
  exponents, the choice of the scientific notation, the leading zeroes and the
  adjustment for the engineering mode.
\<close>

definition format_layout ::
  "settings \<Rightarrow> maxdigits \<Rightarrow> bool \<Rightarrow> string \<Rightarrow> string \<Rightarrow> nat \<Rightarrow> layout" where
  "format_layout display lim editing copy buf expptr =
     (let mode = (if editing then NORMAL else display_mode display);
          digits = (if editing then int (BID128_MAXDIGITS lim) else displayed display);
          max_nonsci = (if editing then int (BID128_MAXDIGITS lim) else max_nonsci display);
          decimal = decimal_dot display;
          sign = peek copy 0;
          neg = (sign = CHR ''-'');
          out0 = (if neg then [peek buf 0] else []);
          in0 = (if neg \<or> sign = CHR ''+'' then 1 else 0);
          bidexp = atoi (drop (expptr + 1) copy);
          mexp = int expptr - int in0 - 1;
          rexp = bidexp + mexp
      in case strip_zeroes copy expptr mexp of (lst, mexp) \<Rightarrow>
         let hasexp0 = (mode = SCI \<or> mode = ENG);
             minexp = (if digits < max_nonsci then digits else max_nonsci);
             hasexp1 = (if \<not> hasexp0
                        then (if rexp < 0 then mexp - rexp - 1 \<ge> minexp
                              else rexp \<ge> max_nonsci)
                        else hasexp0);
             decpos1 = (if \<not> hasexp0 \<and> \<not> rexp < 0 \<and> \<not> hasexp1 then rexp + 1 else 1);
             l = \<lparr>negative = neg, inp = in0, last' = lst, realexp = rexp,
                  hasexp = hasexp1, dispexp = rexp, decpos = decpos1, decimals = digits,
                  out = out0\<rparr>;
             l = (if \<not> hasexp1 \<and> rexp < 0
                  then leading_zeroes (rexp + 1)
                         (l\<lparr>out := out l @ [CHR ''0'', decimal], decpos := decpos l - 1\<rparr>)
                  else l);
             engmode = (mode = ENG)
         in if engmode
            then (let offset = (if dispexp l \<ge> 0 then c_rem (dispexp l) 3
                                else c_rem (dispexp l - 2) 3 + 2)
                  in l\<lparr>decpos := decpos l + offset, dispexp := dispexp l - offset,
                       decimals := decimals l + 1\<rparr>)
            else l)"

text \<open>
  The loop \<open>while (in < last && decimals > 0)\<close> that copies the significant digits
  and inserts the decimal separator.
\<close>

function copy_digits :: "string \<Rightarrow> bool \<Rightarrow> char \<Rightarrow> bool \<Rightarrow> bool \<Rightarrow> layout \<Rightarrow> layout" where
  "copy_digits copy showdec decimal sigmode engmode l =
     (if inp l < last' l \<and> decimals l > 0 then
        (let l = l\<lparr>out := out l @ [peek copy (inp l)], inp := inp l + 1,
                   decpos := decpos l - 1\<rparr>;
             l = (if decpos l = 0 \<and> (inp l < last' l \<or> showdec)
                  then l\<lparr>out := out l @ [decimal]\<rparr> else l);
             l = (if decpos l < 0 \<or> sigmode \<or> engmode
                  then l\<lparr>decimals := decimals l - 1\<rparr> else l)
         in copy_digits copy showdec decimal sigmode engmode l)
      else l)"
  by pat_completeness auto
termination
  by (relation "measure (\<lambda>(copy, showdec, decimal, sigmode, engmode, l). last' l - inp l)")
     (auto simp: Let_def)

declare copy_digits.simps [simp del]

text \<open>
  The rounding loop \<open>while (rounding && --rptr > buf)\<close> over the text written so far;
  the character at offset 0 is never reached.
\<close>

function round_loop :: "string \<Rightarrow> nat \<Rightarrow> bool \<Rightarrow> string \<times> bool" where
  "round_loop buf rptr rounding =
     (if rounding \<and> rptr - 1 > 0 then
        (let rptr = rptr - 1 in
         if code (buf ! rptr) \<ge> code (CHR ''0'') then
           (let c = char_of (code (buf ! rptr) + 1);
                rounding = (code c > code (CHR ''9''));
                c = (if rounding then char_of (code c - 10) else c)
            in round_loop (buf[rptr := c]) rptr rounding)
         else round_loop buf rptr rounding)
      else (buf, rounding))"
  by pat_completeness auto
termination
  by (relation "measure (\<lambda>(buf, rptr, rounding). rptr)") auto

declare round_loop.simps [simp del]

text \<open>The loop \<open>while (decimals > 0)\<close> that adds the trailing zeroes.\<close>

function trailing_zeroes :: "char \<Rightarrow> layout \<Rightarrow> layout" where
  "trailing_zeroes decimal l =
     (if decimals l > 0 then
        (let l = l\<lparr>out := out l @ ''0'', decpos := decpos l - 1\<rparr>;
             l = (if decpos l = 0 then l\<lparr>out := out l @ [decimal]\<rparr> else l)
         in trailing_zeroes decimal (l\<lparr>decimals := decimals l - 1\<rparr>))
      else l)"
  by pat_completeness auto
termination
  by (relation "measure (\<lambda>(decimal, l). nat (decimals l))") (auto simp: Let_def)

declare trailing_zeroes.simps [simp del]

text \<open>
  The end of an attempt that needs no restart: the trailing zeroes and the exponent. The
  result is the text of the buffer and the size returned. The text is taken to fit the
  buffer of \<open>MAXBIDCHAR\<close> characters.
\<close>

definition format_finish ::
  "utf8 \<Rightarrow> settings \<Rightarrow> maxdigits \<Rightarrow> bool \<Rightarrow> layout \<Rightarrow> string \<times> nat" where
  "format_finish U display lim editing l =
     (let mode = (if editing then NORMAL else display_mode display);
          digits = (if editing then int (BID128_MAXDIGITS lim) else displayed display);
          sigmode = (mode = NORMAL);
          l = (if sigmode
               then (if decpos l > 0 then l\<lparr>decimals := decpos l\<rparr> else l\<lparr>decimals := 0\<rparr>)
               else if mode = FIX \<and> decpos l > 0 then l\<lparr>decimals := digits + decpos l\<rparr>
               else l);
          l = trailing_zeroes (decimal_dot display) l;
          l = (if hasexp l
               then l\<lparr>out := out l @ utf8_encode U (exponent_char display)
                                  @ print_int (dispexp l)\<rparr>
               else l)
      in (out l, length (out l)))"

text \<open>
  One execution of the body of the loop \<open>do ... while (overflow)\<close>: either the function
  returns the text of the buffer and its size, or the attempt is given up by
  \<open>continue\<close> with \<open>overflow\<close> set, a new content of \<open>copy\<close> and the buffer as the
  attempt leaves it.
\<close>

datatype attempt = Return string nat | Continue string string

text \<open>
  \<open>snprintf(copy, sizeof(copy), "%c1E%d", negative ? '-' : '+', realexp + 1)\<close>, with
  the value of \<open>realexp + 1\<close> as second argument.
\<close>

definition restart_copy :: "bool \<Rightarrow> int \<Rightarrow> string" where
  "restart_copy neg e =
     take (MAXBIDCHAR - 1) ((if neg then CHR ''-'' else CHR ''+'') # ''1E'' @ print_int e)"

definition format_attempt ::
  "utf8 \<Rightarrow> settings \<Rightarrow> maxdigits \<Rightarrow> bool \<Rightarrow> nat \<Rightarrow> string \<Rightarrow> string \<Rightarrow> attempt" where
  "format_attempt U display lim editing len copy buf =
     (case strchr copy (CHR ''E'') of
        None \<Rightarrow>
          (let buf = (if strncasecmp copy ''+inf'' 4 = 0
                      then strncpy buf [char_of (0xE2 :: nat), char_of (0x88 :: nat),
                                        char_of (0x9E :: nat)] len
                      else if strncasecmp copy ''-inf'' 4 = 0
                      then strncpy buf [CHR ''-'', char_of (0xE2 :: nat), char_of (0x88 :: nat),
                                        char_of (0x9E :: nat)] len
                      else buf)
           in Return buf (length buf))
      | Some expptr \<Rightarrow>
          (let mode = (if editing then NORMAL else display_mode display);
               l = format_layout display lim editing copy buf expptr;
               l = copy_digits copy (show_decimal display) (decimal_dot display)
                     (mode = NORMAL) (mode = ENG) l
           in if inp l < last' l \<and> code (peek copy (inp l)) \<ge> code (CHR ''5'') then
                (case round_loop (out l) (length (out l)) True of
                   (rounded, rounding) \<Rightarrow>
                     if rounding
                     then Continue (restart_copy (negative l) (realexp l + 1))
                            (rounded @ drop (length rounded) buf)
                     else (case format_finish U display lim editing (l\<lparr>out := rounded\<rparr>) of
                             (text, sz) \<Rightarrow> Return text sz))
              else (case format_finish U display lim editing l of
                      (text, sz) \<Rightarrow> Return text sz)))"

text \<open>
  \<open>decimal_format(buf, len, editing)\<close>: the loop repeats the attempt as long as one
  is given up. A run of the loop that never ends has the value \<open>None\<close>.
\<close>

partial_function (option) format_loop ::
  "utf8 \<Rightarrow> settings \<Rightarrow> maxdigits \<Rightarrow> bool \<Rightarrow> nat \<Rightarrow> string \<Rightarrow> string \<Rightarrow> (string \<times> nat) option" where
  "format_loop U display lim editing len copy buf =
     (case format_attempt U display lim editing len copy buf of
        Return text sz \<Rightarrow> Some (text, sz)
      | Continue copy' buf' \<Rightarrow> format_loop U display lim editing len copy' buf')"

declare format_loop.simps [code]

definition decimal_format ::
  "utf8 \<Rightarrow> settings \<Rightarrow> maxdigits \<Rightarrow> string \<Rightarrow> nat \<Rightarrow> bool \<Rightarrow> (string \<times> nat) option" where
  "decimal_format U display lim buf len editing =
     format_loop U display lim editing len (take MAXBIDCHAR buf) buf"


section \<open>Properties of the numeric promotion\<close>

lemma real_promotion_type:
  "real_promotion lib x ty = (x', True) \<Longrightarrow> type x' = ty"
  by (cases "type x"; cases ty)
     (auto simp add: real_promotion_def rt_make_def decimal128_of_bignum_def Let_def
           split: if_splits)

lemma real_promotion_rule:
  "type x = ty \<or> widening_rule (type x) ty \<Longrightarrow> snd (real_promotion lib x ty)"
  by (cases "type x"; cases ty)
     (auto simp add: real_promotion_def widening_rule_def Let_def split: if_splits)

lemma real_promotion_unchanged:
  "real_promotion lib x ty = (x', False) \<Longrightarrow> x' = x"
  by (cases "type x"; cases ty)
     (auto simp add: real_promotion_def Let_def split: if_splits)

lemma real_promotion_fails:
  "type x \<noteq> ty \<Longrightarrow> \<not> widening_rule (type x) ty \<Longrightarrow> real_promotion lib x ty = (x, False)"
  by (cases "type x"; cases ty)
     (auto simp add: real_promotion_def widening_rule_def Let_def split: if_splits)

text \<open>
  C2, amended. The promotion driven by the preferences chooses its target from the
  precision setting alone: \<open>ID_decimal128\<close> when the precision exceeds
  \<open>BID64_MAXDIGITS\<close>, \<open>ID_decimal64\<close> when it exceeds \<open>BID32_MAXDIGITS\<close>,
  \<open>ID_decimal32\<close> otherwise. A value already of that kind, or of a kind with a
  widening rule to it, is promoted: the function returns the target and the value has
  that kind. Every other value is left unchanged and the function returns
  \<open>ID_object\<close>.
\<close>

theorem real_promotion_auto_target:
  fixes lim :: maxdigits and Settings :: settings
  defines "target \<equiv> (if unat (precision Settings) > BID64_MAXDIGITS lim then ID_decimal128
                      else if unat (precision Settings) > BID32_MAXDIGITS lim then ID_decimal64
                      else ID_decimal32)"
  shows "real_promotion_auto lib lim Settings x
           = (if type x = target \<or> widening_rule (type x) target
              then (fst (real_promotion lib x target), target)
              else (x, ID_object))
         \<and> (type x = target \<or> widening_rule (type x) target
              \<longrightarrow> type (fst (real_promotion_auto lib lim Settings x)) = target)"
proof -
  obtain x' ok where r: "real_promotion lib x target = (x', ok)"
    by (cases "real_promotion lib x target") auto
  have auto_eq: "real_promotion_auto lib lim Settings x = (x', if ok then target else ID_object)"
    using r by (simp add: real_promotion_auto_def target_def)
  have kind: "ok \<Longrightarrow> type x' = target"
    using r by (auto dest: real_promotion_type)
  have same: "\<not> ok \<Longrightarrow> x' = x"
    using r by (auto dest: real_promotion_unchanged)
  have rule: "type x = target \<or> widening_rule (type x) target \<Longrightarrow> ok"
    using real_promotion_rule [of x target lib] r by simp
  have norule: "\<not> (type x = target \<or> widening_rule (type x) target) \<Longrightarrow> \<not> ok"
    using real_promotion_fails [of x target lib] r by auto
  show ?thesis
    unfolding auto_eq r using kind same rule norule by (cases ok) auto
qed

theorem real_promotion_auto_target_witness:
  "real_promotion_auto blank_bidlib ieee_maxdigits (standard_settings True)
       \<lparr>type = ID_integer, payload = [1]\<rparr>
     = (\<lparr>type = ID_decimal128, payload = replicate 16 0\<rparr>, ID_decimal128)
   \<and> snd (real_promotion_auto blank_bidlib ieee_maxdigits
            ((standard_settings True)\<lparr>precision := 12\<rparr>) \<lparr>type = ID_bignum, payload = [1, 1]\<rparr>)
     = ID_decimal64
   \<and> snd (real_promotion_auto blank_bidlib ieee_maxdigits
            ((standard_settings True)\<lparr>precision := 7\<rparr>) \<lparr>type = ID_neg_integer, payload = [1]\<rparr>)
     = ID_decimal32"
  using real_promotion_auto_target
    [of blank_bidlib ieee_maxdigits "standard_settings True"
        "\<lparr>type = ID_integer, payload = [1]\<rparr>"]
    real_promotion_auto_target
    [of blank_bidlib ieee_maxdigits "(standard_settings True)\<lparr>precision := 12\<rparr>"
        "\<lparr>type = ID_bignum, payload = [1, 1]\<rparr>"]
    real_promotion_auto_target
    [of blank_bidlib ieee_maxdigits "(standard_settings True)\<lparr>precision := 7\<rparr>"
        "\<lparr>type = ID_neg_integer, payload = [1]\<rparr>"]
  by (simp add: real_promotion_auto_def real_promotion_def rt_make_def blank_bidlib_def
      ieee_maxdigits_def widening_rule_def standard_settings_def)

text \<open>
  C2 as stated fails: with a precision of 7 digits the target is \<open>ID_decimal32\<close>, and
  a 128-bit decimal value is not promoted to it: the function returns \<open>ID_object\<close>
  and leaves the value.
\<close>

theorem real_promotion_auto_target_counterexample:
  "real_promotion_auto blank_bidlib ieee_maxdigits ((standard_settings True)\<lparr>precision := 7\<rparr>)
       \<lparr>type = ID_decimal128, payload = replicate 16 0\<rparr>
     = (\<lparr>type = ID_decimal128, payload = replicate 16 0\<rparr>, ID_object)"
  by (simp add: real_promotion_auto_def real_promotion_def ieee_maxdigits_def
      standard_settings_def)

text \<open>
  C6. Promotion to a named kind fails, leaving the value as it is, for every pair of
  distinct source and target kinds that has no widening rule.
\<close>

theorem real_promotion_no_rule:
  assumes "type x \<noteq> ty" and "\<not> widening_rule (type x) ty"
  shows "real_promotion lib x ty = (x, False)"
  using assms
  by (cases "type x"; cases ty)
     (auto simp add: real_promotion_def widening_rule_def Let_def split: if_splits)

theorem real_promotion_no_rule_witness:
  "real_promotion blank_bidlib \<lparr>type = ID_decimal64, payload = replicate 8 0\<rparr> ID_decimal32
     = (\<lparr>type = ID_decimal64, payload = replicate 8 0\<rparr>, False)"
  using real_promotion_no_rule
    [of "\<lparr>type = ID_decimal64, payload = replicate 8 0\<rparr>" ID_decimal32 blank_bidlib]
  by (simp add: widening_rule_def)

text \<open>
  C7. Promotion is idempotent: when promoting \<open>x\<close> to the kind \<open>K\<close> succeeds with
  the value \<open>x'\<close>, promoting \<open>x'\<close> to \<open>K\<close> again succeeds and gives \<open>x'\<close>.
\<close>

theorem real_promotion_idempotent:
  assumes "real_promotion lib x K = (x', True)"
  shows "real_promotion lib x' K = (x', True)"
proof -
  have "type x' = K" using assms by (rule real_promotion_type)
  then show ?thesis by (simp add: real_promotion_def)
qed

theorem real_promotion_idempotent_witness:
  "real_promotion blank_bidlib \<lparr>type = ID_integer, payload = [5]\<rparr> ID_decimal64
     = (\<lparr>type = ID_decimal64, payload = replicate 8 0\<rparr>, True)
   \<and> real_promotion blank_bidlib \<lparr>type = ID_decimal64, payload = replicate 8 0\<rparr> ID_decimal64
     = (\<lparr>type = ID_decimal64, payload = replicate 8 0\<rparr>, True)"
proof -
  have first: "real_promotion blank_bidlib \<lparr>type = ID_integer, payload = [5]\<rparr> ID_decimal64
     = (\<lparr>type = ID_decimal64, payload = replicate 8 0\<rparr>, True)"
    by (simp add: real_promotion_def rt_make_def blank_bidlib_def)
  show ?thesis
    using first real_promotion_idempotent [OF first] by simp
qed

section \<open>Properties of the local variable names\<close>

lemma unat_low7: "unat (of_nat (v mod 128) :: byte) = v mod 128"
proof -
  have "v mod 128 < 2 ^ LENGTH(8)" 
    by (rule less_trans [of _ 128]) simp_all
  then show ?thesis by (rule of_nat_inverse [OF refl])
qed

lemma unat_low7_cont: "unat (of_nat (v mod 128 + 128) :: byte) = v mod 128 + 128"
proof -
  have "v mod 128 < 128" by simp
  then have "v mod 128 + 128 < 256" by linarith
  then have "v mod 128 + 128 < 2 ^ LENGTH(8)" by simp
  then show ?thesis by (rule of_nat_inverse [OF refl])
qed

lemma leb128_loop_write:
  "leb128_loop shift acc (leb128_write v @ rest) = (acc + v * 2 ^ shift, rest)"
proof (induction v arbitrary: shift acc rule: leb128_write.induct)
  case (1 v)
  show ?case
  proof (cases "v div 128 = 0")
    case True
    then have small: "v mod 128 = v" by simp
    have w: "leb128_write v = [of_nat (v mod 128)]"
      using True by (subst leb128_write.simps) simp
    have "unat (of_nat (v mod 128) :: byte) = v" using unat_low7 [of v] small by simp
    moreover have "v < 128" using True by simp
    ultimately show ?thesis unfolding w by (simp add: Let_def small)
  next
    case False
    have w: "leb128_write v = of_nat (v mod 128 + 128) # leb128_write (v div 128)"
      using False by (subst leb128_write.simps) simp
    have split: "v = v mod 128 + 128 * (v div 128)" by simp
    have s1: "leb128_loop shift acc (leb128_write v @ rest)
        = leb128_loop (shift + 7) (acc + (v mod 128) * 2 ^ shift) (leb128_write (v div 128) @ rest)"
      unfolding w by (simp add: Let_def unat_low7_cont del: of_nat_add)
    have s2: "leb128_loop (shift + 7) (acc + (v mod 128) * 2 ^ shift) (leb128_write (v div 128) @ rest)
        = (acc + (v mod 128) * 2 ^ shift + (v div 128) * 2 ^ (shift + 7), rest)"
      using "1.IH" [OF False] by simp
    have gen: "a * 2 ^ shift + b * 2 ^ (shift + 7) = (a + 128 * b) * 2 ^ shift"
      for a b :: nat
      by (simp add: power_add algebra_simps)
    have s3: "(v mod 128) * 2 ^ shift + (v div 128) * 2 ^ (shift + 7) = v * 2 ^ shift"
      by (simp only: gen mod_mult_div_eq)
    show ?thesis
      by (simp only: s1 s2 add.assoc s3)
  qed
qed

lemma leb128_read_write: "leb128_read (leb128_write v @ rest) = (v, rest)"
  using leb128_loop_write [of 0 0 v rest] by (simp add: leb128_read_def)

lemma local_index_ctor_nat:
  "fst (leb128_read (payload (local_ctor n))) = unat n"
  using leb128_read_write [of "unat n" "[]"] by (simp add: local_ctor_def)

text \<open>
  C10. The encoding of a local variable name round-trips its index: for every unsigned
  32-bit index \<open>n\<close>, the index read back from the object built for \<open>n\<close> is
  \<open>n\<close>, on every target whose \<open>size_t\<close> has at least 32 bits.
\<close>

theorem local_index_roundtrip:
  assumes "32 \<le> LENGTH('s::len)"
  shows "unat (local_index (local_ctor n) :: 's word) = unat n"
proof -
  have "unat n < 2 ^ 32" using unsigned_less [of n, where 'a = nat] by simp
  also have "(2::nat) ^ 32 \<le> 2 ^ LENGTH('s)" using assms by (intro power_increasing) simp_all
  finally have "unat n < 2 ^ LENGTH('s)" .
  then show ?thesis
    by (simp only: local_index_def local_index_ctor_nat of_nat_inverse [OF refl])
qed

theorem local_index_roundtrip_witness:
  "unat (local_index (local_ctor 300) :: 64 word) = 300
   \<and> payload (local_ctor 300) = [172, 2]"
proof -
  have "unat (local_index (local_ctor 300) :: 64 word) = unat (300 :: 32 word)"
    by (rule local_index_roundtrip) simp
  moreover have "payload (local_ctor 300) = [172, 2]"
    by (simp add: local_ctor_def)
  ultimately show ?thesis by simp
qed

text \<open>
  C3. With an outer frame binding \<open>X, Y\<close> and an inner frame binding \<open>A, B\<close>
  active, recalling the local names of index 0, 1, 2 and 3 yields \<open>A\<close>, \<open>B\<close>,
  \<open>X\<close> and \<open>Y\<close>, and recalling index 4 is the error \<open>InvalidLocal\<close>.
\<close>

theorem local_recall_nested:
  fixes A B X Y :: 'v
  defines "rt \<equiv> enter_frame [A, B] (enter_frame [X, Y] [])"
  shows "local_recall (local_ctor 0) rt = Inr A
       \<and> local_recall (local_ctor 1) rt = Inr B
       \<and> local_recall (local_ctor 2) rt = Inr X
       \<and> local_recall (local_ctor 3) rt = Inr Y
       \<and> local_recall (local_ctor 4) rt = Inl InvalidLocal"
proof -
  have idx: "unat (local_index (local_ctor n) :: 64 word) = unat n" for n
  proof -
    have "unat n < 2 ^ 32" using unsigned_less [of n, where 'a = nat] by simp
    then have "unat n < 2 ^ LENGTH(64)" by simp
    then show ?thesis
      by (simp only: local_index_def local_index_ctor_nat of_nat_inverse [OF refl])
  qed
  show ?thesis
    by (simp add: local_recall_def idx rt_def enter_frame_def)
qed

theorem local_recall_nested_witness:
  "local_recall (local_ctor 2) (enter_frame [''A'', ''B''] (enter_frame [''X'', ''Y''] [])) = Inr ''X''
   \<and> local_recall (local_ctor 4) (enter_frame [''A'', ''B''] (enter_frame [''X'', ''Y''] []))
       = (Inl InvalidLocal :: rt_error + string)"
  using local_recall_nested [of "''A''" "''B''" "''X''" "''Y''"] by simp


section \<open>Properties of the pixel coordinates\<close>

lemma pixel_range_nonzero:
  assumes "integer_make ar 1 = Some one" and "\<not> is_zero ar one"
  shows "\<exists>d. pixel_range ar min' max' = Some d \<and> \<not> is_zero ar d"
  using assms by (cases "alg_sub ar max' min'") (auto simp: pixel_range_def Let_def)

text \<open>
  C9. Converting an object to a pixel coordinate never divides by a null or zero range:
  provided \<open>integer::make(1)\<close> gives a non-zero value \<open>one\<close>, a null object
  yields the coordinate 0; the divisor \<open>d\<close> passed to the division is never null nor
  zero, it is \<open>one\<close> when \<open>max - min\<close> is null or zero; and for every real
  number the coordinate is the position divided by \<open>d\<close> and multiplied by the scale.
\<close>

theorem pixel_adjust_no_zero_divisor:
  assumes "integer_make ar 1 = Some one" and "\<not> is_zero ar one"
  shows "pixel_adjust ar None min' max' scale isSize = (0, False)
       \<and> (\<exists>d. pixel_range ar min' max' = Some d \<and> \<not> is_zero ar d
              \<and> (alg_sub ar max' min' = None \<or> is_zero ar (the (alg_sub ar max' min'))
                    \<longrightarrow> d = one)
              \<and> (type obj \<in> {ID_integer, ID_neg_integer, ID_bignum, ID_neg_bignum,
                               ID_fraction, ID_neg_fraction, ID_big_fraction,
                               ID_neg_big_fraction, ID_decimal32, ID_decimal64, ID_decimal128}
                    \<longrightarrow> pixel_adjust ar (Some obj) min' max' scale isSize
                        = (case alg_mul ar
                                  (alg_div ar (if isSize then Some obj
                                               else alg_sub ar (Some obj) min') (Some d))
                                  (integer_make ar (uint scale)) of
                             None \<Rightarrow> (0, False)
                           | Some p \<Rightarrow> (as_int32 ar p, False))))"
proof -
  obtain d where d: "pixel_range ar min' max' = Some d" "\<not> is_zero ar d"
    using pixel_range_nonzero [OF assms] by blast
  have one: "alg_sub ar max' min' = None \<or> is_zero ar (the (alg_sub ar max' min')) \<Longrightarrow> d = one"
    using d(1) assms(1) by (auto simp: pixel_range_def Let_def)
  have adj: "pixel_adjust ar (Some obj) min' max' scale isSize
       = (case alg_mul ar (alg_div ar (if isSize then Some obj
                                       else alg_sub ar (Some obj) min') (Some d))
                          (integer_make ar (uint scale)) of
            None \<Rightarrow> (0, False)
          | Some p \<Rightarrow> (as_int32 ar p, False))"
    if "type obj \<in> {ID_integer, ID_neg_integer, ID_bignum, ID_neg_bignum,
                      ID_fraction, ID_neg_fraction, ID_big_fraction,
                      ID_neg_big_fraction, ID_decimal32, ID_decimal64, ID_decimal128}"
    using that d(1) by (cases isSize) (auto simp: pixel_adjust_def Let_def)
  have null: "pixel_adjust ar None min' max' scale isSize = (0, False)"
    by (simp add: pixel_adjust_def)
  show ?thesis
    using null d one adj by blast
qed

theorem pixel_adjust_no_zero_divisor_witness:
  "pixel_adjust integer_arith None
      (Some \<lparr>type = ID_integer, payload = [3]\<rparr>) (Some \<lparr>type = ID_integer, payload = [3]\<rparr>)
      400 False = (0, False)
   \<and> pixel_range integer_arith
      (Some \<lparr>type = ID_integer, payload = [3]\<rparr>) (Some \<lparr>type = ID_integer, payload = [3]\<rparr>)
      = Some \<lparr>type = ID_integer, payload = [1]\<rparr>
   \<and> pixel_adjust integer_arith (Some \<lparr>type = ID_integer, payload = [5]\<rparr>)
      (Some \<lparr>type = ID_integer, payload = [3]\<rparr>) (Some \<lparr>type = ID_integer, payload = [3]\<rparr>)
      400 False = (800, False)"
proof -
  have one: "integer_make integer_arith 1 = Some \<lparr>type = ID_integer, payload = [1]\<rparr>"
    by code_simp
  have nz: "\<not> is_zero integer_arith \<lparr>type = ID_integer, payload = [1]\<rparr>"
    by code_simp
  have range: "pixel_range integer_arith
      (Some \<lparr>type = ID_integer, payload = [3]\<rparr>) (Some \<lparr>type = ID_integer, payload = [3]\<rparr>)
      = Some \<lparr>type = ID_integer, payload = [1]\<rparr>"
    by code_simp
  have coord: "pixel_adjust integer_arith (Some \<lparr>type = ID_integer, payload = [5]\<rparr>)
      (Some \<lparr>type = ID_integer, payload = [3]\<rparr>) (Some \<lparr>type = ID_integer, payload = [3]\<rparr>)
      400 False = (800, False)"
    by code_simp
  show ?thesis
    using pixel_adjust_no_zero_divisor [OF one nz,
        of "Some \<lparr>type = ID_integer, payload = [3]\<rparr>"
           "Some \<lparr>type = ID_integer, payload = [3]\<rparr>" 400 False
           "\<lparr>type = ID_integer, payload = [5]\<rparr>"]
      range coord
    by simp
qed


section \<open>Properties of the decimal parser\<close>

lemma decimal_parser_cases:
  assumes sm: "scan_mantissa p = (digits, s, dot)"
      and se: "scan_exponent U p s = (e, ev, s')"
  shows "decimal_parser U Settings lim w p =
     (if leading_sign (p_source p) \<and> p_precedence p < 0 then SKIP
      else if s = digits \<and> \<not> special_name (drop s (p_source p)) then SKIP
      else if BID_MAXDIGITS lim w \<le> s - digits - (if dot then 1 else 0)
        then WARN mantissa_error (digits + BID_MAXDIGITS lim w)
      else if exponent_marker U Settings (p_source p) s then
        (if s' = ev then ERROR exponent_error s'
         else if atoi (drop e (p_source p)) < - (maxexp w - 1)
                 \<or> maxexp w < atoi (drop e (p_source p))
           then WARN exponent_range_error s'
         else OK s' (patch U Settings (p_source p) s' 0 0))
      else OK s (patch U Settings (p_source p) s 0 0))"
  by (simp only: decimal_parser_def Let_def sm se prod.case)


text \<open>
  The exponent is the \<open>int\<close> that \<open>atoi\<close> returns. It is the number written in the
  text when that number fits a 32-bit \<open>int\<close>; a larger one wraps around, so that the
  exponent \<open>4294967296\<close> is read as 0 and accepted.
\<close>

lemma atoi_exact:
  assumes "- (2 ^ 31) \<le> strtol str" and "strtol str < 2 ^ 31"
  shows "atoi str = strtol str"
proof -
  have "signed_take_bit (31::nat) (strtol str) = strtol str"
    using assms by (intro signed_take_bit_int_eq_self) simp_all
  then show ?thesis
    by (simp add: atoi_def sint_sbintrunc')
qed

lemma decimal_parser_exponent_wraps:
  "atoi ''4294967296'' = 0
   \<and> decimal_parser standard_utf8 (standard_settings True) ieee_maxdigits 128
     \<lparr>p_source = ''1e4294967296'', p_length = 12, p_precedence = 0\<rparr> = OK 12 ''1e4294967296''
   \<and> decimal_parser standard_utf8 (standard_settings True) ieee_maxdigits 128
     \<lparr>p_source = ''1e7000'', p_length = 6, p_precedence = 0\<rparr> = WARN exponent_range_error 6"
  by code_simp




text \<open>
  C5, amended. When the parser does not decline the input with \<open>SKIP\<close> and the
  mantissa has fewer digits than the maximum of the width, an exponent marker followed by
  no digit (an optional sign at most) yields \<open>ERROR\<close>, located at the offset where
  the digits of the exponent were expected.
\<close>

theorem decimal_parser_ERROR:
  assumes "\<not> parser_skips p"
      and "mantissa_count p < BID_MAXDIGITS lim w"
      and "marker_present U Settings p"
      and "\<not> exponent_digits U p"
  shows "decimal_parser U Settings lim w p = ERROR exponent_error (exponent_end U p)"
proof -
  obtain digits s dot where sm: "scan_mantissa p = (digits, s, dot)"
    by (cases "scan_mantissa p") auto
  obtain e ev s' where se: "scan_exponent U p s = (e, ev, s')"
    by (cases "scan_exponent U p s") auto
  have a: "\<not> (leading_sign (p_source p) \<and> p_precedence p < 0)"
    and b: "\<not> (s = digits \<and> \<not> special_name (drop s (p_source p)))"
    using assms(1) unfolding parser_skips_def sm prod.case by blast+
  have c: "\<not> BID_MAXDIGITS lim w \<le> s - digits - (if dot then 1 else 0)"
    using assms(2) unfolding mantissa_count_def sm prod.case by simp
  have d: "exponent_marker U Settings (p_source p) s"
    using assms(3) unfolding marker_present_def mantissa_end_def sm prod.case .
  have e: "s' = ev"
    using assms(4) unfolding exponent_digits_def mantissa_end_def sm se prod.case by simp
  have f: "exponent_end U p = s'"
    unfolding exponent_end_def mantissa_end_def sm se prod.case by (rule refl)
  show ?thesis
    unfolding decimal_parser_cases [OF sm se] f
    using a b c d e by (simp only: if_False if_True simp_thms)
qed

theorem decimal_parser_ERROR_witness:
  "decimal_parser standard_utf8 (standard_settings True) ieee_maxdigits 128
     \<lparr>p_source = ''1e'', p_length = 2, p_precedence = 0\<rparr> = ERROR exponent_error 2"
proof -
  have "\<not> parser_skips \<lparr>p_source = ''1e'', p_length = 2, p_precedence = 0\<rparr>"
    by code_simp
  moreover have "mantissa_count \<lparr>p_source = ''1e'', p_length = 2, p_precedence = 0\<rparr>
      < BID_MAXDIGITS ieee_maxdigits 128"
    by code_simp
  moreover have "marker_present standard_utf8 (standard_settings True)
      \<lparr>p_source = ''1e'', p_length = 2, p_precedence = 0\<rparr>"
    by code_simp
  moreover have "\<not> exponent_digits standard_utf8
      \<lparr>p_source = ''1e'', p_length = 2, p_precedence = 0\<rparr>"
    by code_simp
  moreover have "exponent_end standard_utf8
      \<lparr>p_source = ''1e'', p_length = 2, p_precedence = 0\<rparr> = 2"
    by code_simp
  ultimately show ?thesis
    using decimal_parser_ERROR [of "\<lparr>p_source = ''1e'', p_length = 2, p_precedence = 0\<rparr>"
        ieee_maxdigits 128 standard_utf8 "standard_settings True"]
    by simp
qed

text \<open>
  C5 as stated fails: a mantissa of 40 digits followed by an exponent marker and no digit
  yields \<open>WARN\<close> from the 128-bit parser, since the mantissa is checked first.
\<close>

theorem decimal_parser_ERROR_counterexample:
  "marker_present standard_utf8 (standard_settings True)
     \<lparr>p_source = ''1234567890123456789012345678901234567890e'', p_length = 41,
      p_precedence = 0\<rparr>
   \<and> \<not> exponent_digits standard_utf8
     \<lparr>p_source = ''1234567890123456789012345678901234567890e'', p_length = 41,
      p_precedence = 0\<rparr>
   \<and> decimal_parser standard_utf8 (standard_settings True) ieee_maxdigits 128
     \<lparr>p_source = ''1234567890123456789012345678901234567890e'', p_length = 41,
      p_precedence = 0\<rparr> = WARN mantissa_error 34"
  by code_simp


section \<open>Properties of the decimal formatting\<close>

lemma copy_digits_keeps:
  "negative (copy_digits c sd d sg en l) = negative l
   \<and> realexp (copy_digits c sd d sg en l) = realexp l
   \<and> last' (copy_digits c sd d sg en l) = last' l
   \<and> inp l \<le> inp (copy_digits c sd d sg en l)
   \<and> (inp l \<le> last' l \<longrightarrow> inp (copy_digits c sd d sg en l) \<le> last' l)"
proof (induction c sd d sg en l rule: copy_digits.induct)
  case (1 copy showdec decimal sigmode engmode l)
  show ?case
  proof (cases "inp l < last' l \<and> decimals l > 0")
    case False
    have stop: "copy_digits copy showdec decimal sigmode engmode l = l"
      by (subst copy_digits.simps) (simp only: False if_False)
    show ?thesis unfolding stop by simp
  next
    case True
    define l1 where "l1 = l\<lparr>out := out l @ [peek copy (inp l)], inp := inp l + 1,
                   decpos := decpos l - 1\<rparr>"
    define l2 where "l2 = (if decpos l1 = 0 \<and> (inp l1 < last' l1 \<or> showdec)
                  then l1\<lparr>out := out l1 @ [decimal]\<rparr> else l1)"
    define l3 where "l3 = (if decpos l2 < 0 \<or> sigmode \<or> engmode
                  then l2\<lparr>decimals := decimals l2 - 1\<rparr> else l2)"
    have step: "copy_digits copy showdec decimal sigmode engmode l
              = copy_digits copy showdec decimal sigmode engmode l3"
      by (subst copy_digits.simps) (simp only: True simp_thms if_True Let_def l1_def l2_def l3_def)
    have ih: "negative (copy_digits copy showdec decimal sigmode engmode l3) = negative l3
       \<and> realexp (copy_digits copy showdec decimal sigmode engmode l3) = realexp l3
       \<and> last' (copy_digits copy showdec decimal sigmode engmode l3) = last' l3
       \<and> inp l3 \<le> inp (copy_digits copy showdec decimal sigmode engmode l3)
       \<and> (inp l3 \<le> last' l3 \<longrightarrow> inp (copy_digits copy showdec decimal sigmode engmode l3) \<le> last' l3)"
      using "1.IH" [OF True l1_def l2_def l3_def] .
    have l3: "negative l3 = negative l" "realexp l3 = realexp l" "last' l3 = last' l"
      "inp l3 = inp l + 1"
      by (simp_all add: l1_def l2_def l3_def)
    show ?thesis
      unfolding step using ih True by (simp add: l3)
  qed
qed


lemma leading_zeroes_keeps:
  "negative (leading_zeroes z l) = negative l
   \<and> realexp (leading_zeroes z l) = realexp l
   \<and> last' (leading_zeroes z l) = last' l
   \<and> inp (leading_zeroes z l) = inp l"
proof (induction z l rule: leading_zeroes.induct)
  case (1 zeroes l)
  show ?case
  proof (cases "zeroes < 0")
    case False
    have stop: "leading_zeroes zeroes l = l"
      by (subst leading_zeroes.simps) (simp only: False if_False)
    show ?thesis unfolding stop by simp
  next
    case True
    have step: "leading_zeroes zeroes l
        = leading_zeroes (zeroes + 1) (l\<lparr>out := out l @ ''0'', decimals := decimals l - 1\<rparr>)"
      by (subst leading_zeroes.simps) (simp only: True if_True)
    show ?thesis
      unfolding step using "1.IH" [OF True] by simp
  qed
qed

lemma format_layout_keeps:
  "negative (format_layout display lim editing copy buf expptr) = (peek copy 0 = CHR ''-'')
   \<and> inp (format_layout display lim editing copy buf expptr)
       = (if peek copy 0 = CHR ''-'' \<or> peek copy 0 = CHR ''+'' then 1 else 0)
   \<and> last' (format_layout display lim editing copy buf expptr)
       = fst (strip_zeroes copy expptr
                (int expptr
                 - int (if peek copy 0 = CHR ''-'' \<or> peek copy 0 = CHR ''+'' then 1 else 0) - 1))
   \<and> realexp (format_layout display lim editing copy buf expptr)
       = atoi (drop (expptr + 1) copy)
         + (int expptr
            - int (if peek copy 0 = CHR ''-'' \<or> peek copy 0 = CHR ''+'' then 1 else 0) - 1)"
proof -
  define in0 :: nat where "in0 = (if peek copy 0 = CHR ''-'' \<or> peek copy 0 = CHR ''+'' then 1 else 0)"
  obtain lst mexp where sz: "strip_zeroes copy expptr (int expptr - int in0 - 1) = (lst, mexp)"
    by (cases "strip_zeroes copy expptr (int expptr - int in0 - 1)") auto
  have "negative (format_layout display lim editing copy buf expptr) = (peek copy 0 = CHR ''-'')"
    unfolding format_layout_def Let_def in0_def [symmetric] sz prod.case
    by (simp add: leading_zeroes_keeps)
  moreover have "inp (format_layout display lim editing copy buf expptr) = in0"
    unfolding format_layout_def Let_def in0_def [symmetric] sz prod.case
    by (simp add: leading_zeroes_keeps)
  moreover have "last' (format_layout display lim editing copy buf expptr) = lst"
    unfolding format_layout_def Let_def in0_def [symmetric] sz prod.case
    by (simp add: leading_zeroes_keeps)
  moreover have "realexp (format_layout display lim editing copy buf expptr)
       = atoi (drop (expptr + 1) copy) + (int expptr - int in0 - 1)"
    unfolding format_layout_def Let_def in0_def [symmetric] sz prod.case
    by (simp add: leading_zeroes_keeps)
  ultimately show ?thesis
    unfolding in0_def [symmetric] sz by simp
qed


lemma restart_copy_shape:
  "\<exists>sign rest. restart_copy neg e = sign # CHR ''1'' # CHR ''E'' # rest
       \<and> (sign = CHR ''-'' \<or> sign = CHR ''+'')"
  by (simp add: restart_copy_def MAXBIDCHAR_def)

lemma restart_attempt_returns:
  "\<exists>str sz. format_attempt U display lim editing len (restart_copy neg e) buf = Return str sz"
proof -
  obtain sign rest where copy: "restart_copy neg e = sign # CHR ''1'' # CHR ''E'' # rest"
    and sign: "sign = CHR ''-'' \<or> sign = CHR ''+''"
    using restart_copy_shape by blast
  define copy where "copy = restart_copy neg e"
  define mode where "mode = (if editing then NORMAL else display_mode display)"
  define l0 where "l0 = format_layout display lim editing copy buf 2"
  define l where "l = copy_digits copy (show_decimal display) (decimal_dot display)
                     (mode = NORMAL) (mode = ENG) l0"
  have copy_eq: "copy = sign # CHR ''1'' # CHR ''E'' # rest"
    using copy by (simp add: copy_def)
  have E: "strchr copy (CHR ''E'') = Some 2"
    using sign by (auto simp: copy_eq)
  have p0: "peek copy 0 = sign" and p1: "peek copy (Suc 0) = CHR ''1''"
    by (simp_all add: copy_eq peek_def)
  have strip: "strip_zeroes copy 2 m = (2, m)" for m
    by (subst strip_zeroes.simps) simp
  have inp0: "inp l0 = 1" and last0: "last' l0 = 2"
    using format_layout_keeps [of display lim editing copy buf 2] sign
    by (auto simp: l0_def p0 strip)
  have keeps: "last' l = 2" "1 \<le> inp l" "inp l \<le> 2"
    using copy_digits_keeps [of copy "show_decimal display" "decimal_dot display"
        "mode = NORMAL" "mode = ENG" l0]
    by (simp_all add: l_def inp0 last0)
  have no_round: "\<not> (inp l < last' l \<and> code (peek copy (inp l)) \<ge> code (CHR ''5''))"
  proof
    assume a: "inp l < last' l \<and> code (peek copy (inp l)) \<ge> code (CHR ''5'')"
    then have "inp l = Suc 0" using keeps by simp
    then show False using a by (simp add: p1 code_def)
  qed
  obtain str sz where fin: "format_finish U display lim editing l = (str, sz)"
    by (cases "format_finish U display lim editing l") auto
  have "format_attempt U display lim editing len copy buf = Return str sz"
    unfolding format_attempt_def E option.case Let_def
      mode_def [symmetric] l0_def [symmetric] l_def [symmetric]
    by (simp only: no_round if_False fin prod.case)
  then show ?thesis unfolding copy_def by blast
qed

lemma format_attempt_Continue:
  assumes "format_attempt U display lim editing len copy buf = Continue copy' buf'"
  shows "\<exists>expptr. strchr copy (CHR ''E'') = Some expptr
          \<and> copy' = restart_copy (negative (format_layout display lim editing copy buf expptr))
                       (realexp (format_layout display lim editing copy buf expptr) + 1)"
proof (cases "strchr copy (CHR ''E'')")
  case None
  then show ?thesis using assms by (simp add: format_attempt_def Let_def)
next
  case (Some expptr)
  define mode where "mode = (if editing then NORMAL else display_mode display)"
  define l0 where "l0 = format_layout display lim editing copy buf expptr"
  define l where "l = copy_digits copy (show_decimal display) (decimal_dot display)
                     (mode = NORMAL) (mode = ENG) l0"
  have keeps: "negative l = negative l0" "realexp l = realexp l0"
    using copy_digits_keeps [of copy "show_decimal display" "decimal_dot display"
        "mode = NORMAL" "mode = ENG" l0]
    by (simp_all add: l_def)
  obtain rounded rounding where r: "round_loop (out l) (length (out l)) True = (rounded, rounding)"
    by (cases "round_loop (out l) (length (out l)) True") auto
  obtain t1 s1 where f1: "format_finish U display lim editing (l\<lparr>out := rounded\<rparr>) = (t1, s1)"
    by (cases "format_finish U display lim editing (l\<lparr>out := rounded\<rparr>)") auto
  obtain t2 s2 where f2: "format_finish U display lim editing l = (t2, s2)"
    by (cases "format_finish U display lim editing l") auto
  have attempt: "format_attempt U display lim editing len copy buf =
     (if inp l < last' l \<and> code (peek copy (inp l)) \<ge> code (CHR ''5'') then
        (if rounding
         then Continue (restart_copy (negative l) (realexp l + 1))
                (rounded @ drop (length rounded) buf)
         else Return t1 s1)
      else Return t2 s2)"
    unfolding format_attempt_def Some option.case Let_def
      mode_def [symmetric] l0_def [symmetric] l_def [symmetric]
    by (simp only: r f1 f2 prod.case)
  have "copy' = restart_copy (negative l) (realexp l + 1)"
    using assms unfolding attempt by (simp split: if_splits)
  then show ?thesis
    using Some by (simp add: keeps l0_def)
qed

text \<open>
  The restart: when a rounding is needed and every character written after the first
  one of the buffer is a \<open>9\<close> or a separator, the carry runs through the whole text,
  the attempt is given up and the text to format becomes the sign, the digit \<open>1\<close> and
  the exponent \<open>realexp + 1\<close>.
\<close>

lemma round_loop_carry:
  assumes "\<forall>i. 0 < i \<and> i < rptr \<longrightarrow> buf ! i = CHR ''9'' \<or> code (buf ! i) < code (CHR ''0'')"
      and "rptr \<le> length buf"
  shows "snd (round_loop buf rptr True)"
  using assms
proof (induction rptr arbitrary: buf)
  case 0
  have "round_loop buf 0 True = (buf, True)"
    by (subst round_loop.simps) simp
  then show ?case by simp
next
  case (Suc n)
  show ?case
  proof (cases "n = 0")
    case True
    have "round_loop buf (Suc n) True = (buf, True)"
      by (subst round_loop.simps) (simp add: True)
    then show ?thesis by simp
  next
    case False
    have nine: "buf ! n = CHR ''9'' \<or> code (buf ! n) < code (CHR ''0'')"
      using Suc.prems(1) False by simp
    have len: "n \<le> length buf" using Suc.prems(2) by simp
    have rest: "\<forall>i. 0 < i \<and> i < n \<longrightarrow> buf ! i = CHR ''9'' \<or> code (buf ! i) < code (CHR ''0'')"
      using Suc.prems(1) by simp
    show ?thesis
    proof (cases "code (buf ! n) \<ge> code (CHR ''0'')")
      case lt: False
      have step: "round_loop buf (Suc n) True = round_loop buf n True"
        using False lt by (subst round_loop.simps) (simp add: Let_def)
      show ?thesis
        unfolding step using Suc.IH [OF rest len] .
    next
      case True
      then have b9: "buf ! n = CHR ''9''" using nine by auto
      have c0: "char_of (48 :: nat) = CHR ''0''"
        by code_simp
      have step: "round_loop buf (Suc n) True = round_loop (buf[n := CHR ''0'']) n True"
        using False b9 by (subst round_loop.simps) (simp add: Let_def code_def c0)
      have rest': "\<forall>i. 0 < i \<and> i < n \<longrightarrow>
          buf[n := CHR ''0''] ! i = CHR ''9'' \<or> code (buf[n := CHR ''0''] ! i) < code (CHR ''0'')"
        using rest by simp
      have len': "n \<le> length (buf[n := CHR ''0''])" using len by simp
      show ?thesis
        unfolding step using Suc.IH [OF rest' len'] .
    qed
  qed
qed


lemma format_attempt_carry:
  fixes display :: settings and editing :: bool
  defines "mode \<equiv> (if editing then NORMAL else display_mode display)"
  assumes E: "strchr copy (CHR ''E'') = Some expptr"
      and l: "l = copy_digits copy (show_decimal display) (decimal_dot display)
                    (mode = NORMAL) (mode = ENG)
                    (format_layout display lim editing copy buf expptr)"
      and next_digit: "inp l < last' l" "code (peek copy (inp l)) \<ge> code (CHR ''5'')"
      and nines: "\<forall>i. 0 < i \<and> i < length (out l) \<longrightarrow>
                    out l ! i = CHR ''9'' \<or> code (out l ! i) < code (CHR ''0'')"
  shows "\<exists>buf'. format_attempt U display lim editing len copy buf
           = Continue (restart_copy (negative l) (realexp l + 1)) buf'"
proof -
  obtain rounded rounding where r: "round_loop (out l) (length (out l)) True = (rounded, rounding)"
    by (cases "round_loop (out l) (length (out l)) True") auto
  have "snd (round_loop (out l) (length (out l)) True)"
    using round_loop_carry [OF nines] by simp
  then have rounding: "rounding" using r by simp
  have cond: "inp l < last' l \<and> code (peek copy (inp l)) \<ge> code (CHR ''5'')"
    using next_digit by simp
  have "format_attempt U display lim editing len copy buf
      = Continue (restart_copy (negative l) (realexp l + 1)) (rounded @ drop (length rounded) buf)"
    unfolding format_attempt_def E option.case Let_def mode_def [symmetric] l [symmetric]
    by (simp only: cond simp_thms if_True r prod.case rounding)
  then show ?thesis by blast
qed

text \<open>
  \<open>decimal_format\<close> returns for every content of its buffer, after at most one
  restart: either the first attempt returns, or the first attempt is given up after the
  rounding, the text to format is replaced by the sign, the single digit \<open>1\<close> and the
  exponent \<open>realexp + 1\<close>, and the second attempt returns.
\<close>

lemma decimal_format_returns:
  "\<exists>str sz. decimal_format U display lim buf len editing = Some (str, sz)
     \<and> (format_attempt U display lim editing len (take MAXBIDCHAR buf) buf = Return str sz
        \<or> (\<exists>expptr buf'.
              strchr (take MAXBIDCHAR buf) (CHR ''E'') = Some expptr
              \<and> format_attempt U display lim editing len (take MAXBIDCHAR buf) buf
                  = Continue
                      (restart_copy
                         (negative (format_layout display lim editing (take MAXBIDCHAR buf) buf expptr))
                         (realexp (format_layout display lim editing (take MAXBIDCHAR buf) buf expptr) + 1))
                      buf'
              \<and> format_attempt U display lim editing len
                    (restart_copy
                       (negative (format_layout display lim editing (take MAXBIDCHAR buf) buf expptr))
                       (realexp (format_layout display lim editing (take MAXBIDCHAR buf) buf expptr) + 1))
                    buf'
                  = Return str sz))"
proof (cases "format_attempt U display lim editing len (take MAXBIDCHAR buf) buf")
  case (Return str sz)
  then have "decimal_format U display lim buf len editing = Some (str, sz)"
    unfolding decimal_format_def by (subst format_loop.simps) simp
  then show ?thesis using Return by blast
next
  case (Continue copy' buf')
  obtain expptr where E: "strchr (take MAXBIDCHAR buf) (CHR ''E'') = Some expptr"
    and copy': "copy' = restart_copy
        (negative (format_layout display lim editing (take MAXBIDCHAR buf) buf expptr))
        (realexp (format_layout display lim editing (take MAXBIDCHAR buf) buf expptr) + 1)"
    using format_attempt_Continue [OF Continue] by blast
  obtain str sz where second: "format_attempt U display lim editing len copy' buf' = Return str sz"
    unfolding copy' using restart_attempt_returns by blast
  have "format_loop U display lim editing len copy' buf' = Some (str, sz)"
    by (subst format_loop.simps) (simp add: second)
  then have "decimal_format U display lim buf len editing = Some (str, sz)"
    unfolding decimal_format_def by (subst format_loop.simps) (simp add: Continue)
  then show ?thesis
    using E Continue second unfolding copy' by blast
qed

lemma decimal_format_returns_example:
  "decimal_format standard_utf8 ((standard_settings True)\<lparr>displayed := 4\<rparr>) ieee_maxdigits
      ''+99999E-4'' 48 False = Some (''10.'', 3)
   \<and> format_attempt standard_utf8 ((standard_settings True)\<lparr>displayed := 4\<rparr>) ieee_maxdigits
      False 48 ''+99999E-4'' ''+99999E-4'' = Continue ''+1E1'' ''9.0009E-4''
   \<and> format_attempt standard_utf8 ((standard_settings True)\<lparr>displayed := 4\<rparr>) ieee_maxdigits
      False 48 ''+1E1'' ''9.0009E-4'' = Return ''10.'' 3"
proof -
  have first: "format_attempt standard_utf8 ((standard_settings True)\<lparr>displayed := 4\<rparr>)
      ieee_maxdigits False 48 ''+99999E-4'' ''+99999E-4'' = Continue ''+1E1'' ''9.0009E-4''"
    by code_simp
  have second: "format_attempt standard_utf8 ((standard_settings True)\<lparr>displayed := 4\<rparr>)
      ieee_maxdigits False 48 ''+1E1'' ''9.0009E-4'' = Return ''10.'' 3"
    by code_simp
  have "take MAXBIDCHAR ''+99999E-4'' = ''+99999E-4''"
    by (simp add: MAXBIDCHAR_def)
  then have "decimal_format standard_utf8 ((standard_settings True)\<lparr>displayed := 4\<rparr>)
      ieee_maxdigits ''+99999E-4'' 48 False = Some (''10.'', 3)"
    using decimal_format_returns [of standard_utf8 "(standard_settings True)\<lparr>displayed := 4\<rparr>"
        ieee_maxdigits "''+99999E-4''" 48 False] first second
    by auto
  then show ?thesis using first second by simp
qed


text \<open>
  C1. The restart is for a carry that propagates past the first digit. The rounding loop
  stops before the first character of the buffer: for a negative number that character
  is the sign, for every other number it is the first digit, which is never incremented.
  At the text \<open>+19999E-4\<close> with 4 displayed digits the carry reaches the first digit
  \<open>1\<close> and does not pass it; the attempt is given up all the same, the text to format
  becomes \<open>+1E1\<close> and the value 1.9999 is formatted as \<open>10.\<close>, while -1.9999 is
  formatted as \<open>-2.000\<close>.
\<close>

theorem decimal_format_restart_at_first_digit:
  "format_attempt standard_utf8 ((standard_settings True)\<lparr>displayed := 4\<rparr>) ieee_maxdigits
      False 48 ''+19999E-4'' ''+19999E-4'' = Continue ''+1E1'' ''1.0009E-4''
   \<and> decimal_format standard_utf8 ((standard_settings True)\<lparr>displayed := 4\<rparr>) ieee_maxdigits
      ''+19999E-4'' 48 False = Some (''10.'', 3)
   \<and> decimal_format standard_utf8 ((standard_settings True)\<lparr>displayed := 4\<rparr>) ieee_maxdigits
      ''-19999E-4'' 48 False = Some (''-2.000'', 6)"
  by code_simp

lemma code_digits [simp]:
  "code (CHR ''0'') = 48" "code (CHR ''9'') = 57" "code (CHR ''5'') = 53"
  "code (CHR ''1'') = 49" "code (CHR ''2'') = 50" "code (CHR ''3'') = 51"
  "code (CHR ''+'') = 43" "code (CHR ''-'') = 45"
  by (simp_all add: code_def)

lemma atoi_plus0: "atoi ''+0'' = 0"
  by (simp add: atoi_def strtol_def isspace_def isdigit_def)

lemma atoi_minus1: "atoi ''-1'' = - 1"
  by (simp add: atoi_def strtol_def isspace_def isdigit_def)

lemma layout_123:
  assumes "display_mode display = NORMAL" "3 \<le> displayed display" "3 \<le> max_nonsci display"
  shows "format_layout display lim False ''+123E+0'' buf 4
       = \<lparr>negative = False, inp = 1, last' = 4, realexp = 2, hasexp = False, dispexp = 2,
          decpos = 3, decimals = displayed display, out = []\<rparr>"
proof -
  have strip: "strip_zeroes ''+123E+0'' 4 m = (4, m)" for m
    by (subst strip_zeroes.simps) (simp add: peek_def)
  show ?thesis
    using assms
    by (simp add: format_layout_def Let_def peek_def atoi_plus0 strip)
qed

lemma digits_123:
  assumes "3 \<le> ds"
  shows "copy_digits ''+123E+0'' sd d True False
           \<lparr>negative = False, inp = Suc 0, last' = 4, realexp = 2, hasexp = False, dispexp = 2,
            decpos = 3, decimals = ds, out = []\<rparr>
       = \<lparr>negative = False, inp = 4, last' = 4, realexp = 2, hasexp = False, dispexp = 2,
          decpos = 0, decimals = ds - 3, out = ''123'' @ (if sd then [d] else [])\<rparr>"
  using assms
  by (simp add: copy_digits.simps Let_def peek_def)


lemma layout_1230:
  assumes "display_mode display = NORMAL" "3 \<le> displayed display" "3 \<le> max_nonsci display"
  shows "format_layout display lim False ''+1230E-1'' buf 5
       = \<lparr>negative = False, inp = 1, last' = 4, realexp = 2, hasexp = False, dispexp = 2,
          decpos = 3, decimals = displayed display, out = []\<rparr>"
proof -
  have strip: "strip_zeroes ''+1230E-1'' 5 3 = (4, 2)"
    by (subst strip_zeroes.simps, simp add: peek_def, subst strip_zeroes.simps, simp add: peek_def)
  show ?thesis
    using assms
    by (simp add: format_layout_def Let_def peek_def atoi_minus1 strip)
qed

lemma digits_1230:
  assumes "3 \<le> ds"
  shows "copy_digits ''+1230E-1'' sd d True False
           \<lparr>negative = False, inp = Suc 0, last' = 4, realexp = 2, hasexp = False, dispexp = 2,
            decpos = 3, decimals = ds, out = []\<rparr>
       = \<lparr>negative = False, inp = 4, last' = 4, realexp = 2, hasexp = False, dispexp = 2,
          decpos = 0, decimals = ds - 3, out = ''123'' @ (if sd then [d] else [])\<rparr>"
  using assms
  by (simp add: copy_digits.simps Let_def peek_def)

lemma layout_05:
  assumes "display_mode display = NORMAL" "3 \<le> displayed display" "3 \<le> max_nonsci display"
  shows "format_layout display lim False ''+5E-1'' buf 2
       = \<lparr>negative = False, inp = 1, last' = 2, realexp = - 1, hasexp = False, dispexp = - 1,
          decpos = 0, decimals = displayed display, out = [CHR ''0'', decimal_dot display]\<rparr>"
proof -
  have strip: "strip_zeroes ''+5E-1'' 2 m = (2, m)" for m
    by (subst strip_zeroes.simps) simp
  have lead: "leading_zeroes 0 l = l" for l
    by (subst leading_zeroes.simps) simp
  show ?thesis
    using assms
    by (simp add: format_layout_def Let_def peek_def atoi_minus1 strip lead)
qed

lemma digits_05:
  assumes "3 \<le> ds"
  shows "copy_digits ''+5E-1'' sd d True False
           \<lparr>negative = False, inp = Suc 0, last' = 2, realexp = - 1, hasexp = False, dispexp = - 1,
            decpos = 0, decimals = ds, out = [CHR ''0'', d]\<rparr>
       = \<lparr>negative = False, inp = 2, last' = 2, realexp = - 1, hasexp = False, dispexp = - 1,
          decpos = - 1, decimals = ds - 1, out = [CHR ''0'', d, CHR ''5'']\<rparr>"
  using assms
  by (simp add: copy_digits.simps Let_def peek_def)

lemma finish_standard:
  assumes "display_mode display = NORMAL" "decpos l \<le> 0" "\<not> hasexp l"
  shows "format_finish U display lim False l = (out l, length (out l))"
proof -
  have stop: "trailing_zeroes d (l\<lparr>decimals := 0\<rparr>) = l\<lparr>decimals := 0\<rparr>" for d
    by (subst trailing_zeroes.simps) simp
  show ?thesis
    using assms by (simp add: format_finish_def Let_def stop)
qed

text \<open>
  C8, amended. In the standard display mode, with at least 3 displayed digits and a
  threshold for the scientific notation of at least 3, the value 123 (which the decimal
  library prints as \<open>+123E+0\<close> or \<open>+1230E-1\<close>) is formatted as \<open>123\<close> with
  no trailing zero, followed by the decimal separator exactly when the setting
  \<open>show_decimal\<close> is on; the value 0.5 is formatted as \<open>0\<close>, the decimal
  separator and \<open>5\<close>, the leading zero kept.
\<close>

theorem decimal_format_standard:
  assumes "display_mode display = NORMAL" "3 \<le> displayed display" "3 \<le> max_nonsci display"
  shows "decimal_format U display lim ''+123E+0'' len False
           = Some (''123'' @ (if show_decimal display then [decimal_dot display] else []),
                   if show_decimal display then 4 else 3)
       \<and> decimal_format U display lim ''+1230E-1'' len False
           = Some (''123'' @ (if show_decimal display then [decimal_dot display] else []),
                   if show_decimal display then 4 else 3)
       \<and> decimal_format U display lim ''+5E-1'' len False
           = Some ([CHR ''0'', decimal_dot display, CHR ''5''], 3)"
proof -
  have E1: "strchr ''+123E+0'' (CHR ''E'') = Some 4"
    and E2: "strchr ''+1230E-1'' (CHR ''E'') = Some 5"
    and E3: "strchr ''+5E-1'' (CHR ''E'') = Some 2"
    by (simp_all add: eval_nat_numeral)
  have a1: "format_attempt U display lim False len ''+123E+0'' ''+123E+0''
      = Return (''123'' @ (if show_decimal display then [decimal_dot display] else []))
               (if show_decimal display then 4 else 3)"
    unfolding format_attempt_def E1 option.case Let_def
    using assms(1)
    by (simp add: layout_123 [OF assms] digits_123 [OF assms(2)] finish_standard)
  have a2: "format_attempt U display lim False len ''+1230E-1'' ''+1230E-1''
      = Return (''123'' @ (if show_decimal display then [decimal_dot display] else []))
               (if show_decimal display then 4 else 3)"
    unfolding format_attempt_def E2 option.case Let_def
    using assms(1)
    by (simp add: layout_1230 [OF assms] digits_1230 [OF assms(2)] finish_standard)
  have a3: "format_attempt U display lim False len ''+5E-1'' ''+5E-1''
      = Return [CHR ''0'', decimal_dot display, CHR ''5''] 3"
    unfolding format_attempt_def E3 option.case Let_def
    using assms(1)
    by (simp add: layout_05 [OF assms] digits_05 [OF assms(2)] finish_standard)
  show ?thesis
    unfolding decimal_format_def
    by (subst (1 2 3) format_loop.simps) (simp add: MAXBIDCHAR_def a1 a2 a3)
qed

theorem decimal_format_standard_witness:
  "decimal_format standard_utf8 (standard_settings False) ieee_maxdigits ''+123E+0'' 48 False
     = Some (''123'', 3)
   \<and> decimal_format standard_utf8 (standard_settings False) ieee_maxdigits ''+1230E-1'' 48 False
     = Some (''123'', 3)
   \<and> decimal_format standard_utf8 (standard_settings False) ieee_maxdigits ''+5E-1'' 48 False
     = Some (''0.5'', 3)"
  using decimal_format_standard [of "standard_settings False" standard_utf8 ieee_maxdigits 48]
  by (simp add: standard_settings_def)

text \<open>
  C8 as stated fails: with the setting \<open>show_decimal\<close> on, the value 123 is formatted
  in the standard mode with a trailing decimal separator.
\<close>

theorem decimal_format_standard_counterexample:
  "decimal_format standard_utf8 (standard_settings True) ieee_maxdigits ''+123E+0'' 48 False
     = Some (''123.'', 4)"
  by code_simp

subsection \<open>The text of the restart\<close>

text \<open>
  The text that \<open>snprintf\<close> writes for the restart is read back by the next attempt
  as the same sign, the single digit \<open>1\<close> and the exponent it was given, for every
  exponent of a 32-bit \<open>int\<close>: \<open>atoi\<close> inverts the conversion \<open>%d\<close>.
\<close>

lemma code_digit: "d < 10 \<Longrightarrow> code (char_of (48 + d)) = 48 + (d::nat)"
  by (simp add: code_def)

lemma isdigit_digit: "d < 10 \<Longrightarrow> isdigit (char_of (48 + (d::nat)))"
  by (simp add: isdigit_def code_digit)

lemma strtol_digits_print_nat:
  "strtol_digits acc (print_nat n @ rest)
     = strtol_digits (acc * 10 ^ length (print_nat n) + int n) rest"
proof (induction n arbitrary: acc rest rule: print_nat.induct)
  case (1 n)
  show ?case
  proof (cases "n < 10")
    case True
    have p: "print_nat n = [char_of (code (CHR ''0'') + n)]"
      using True by (subst print_nat.simps) simp
    show ?thesis
      unfolding p using True by (simp add: isdigit_digit code_digit)
  next
    case False
    have p: "print_nat n = print_nat (n div 10) @ [char_of (code (CHR ''0'') + n mod 10)]"
      using False by (subst print_nat.simps) simp
    have d: "n mod 10 < 10" by simp
    have "strtol_digits acc (print_nat n @ rest)
        = strtol_digits (acc * 10 ^ length (print_nat (n div 10)) + int (n div 10))
            (char_of (code (CHR ''0'') + n mod 10) # rest)"
      unfolding p using "1.IH" [OF False, of acc "char_of (code (CHR ''0'') + n mod 10) # rest"]
      by simp
    also have "\<dots> = strtol_digits
        ((acc * 10 ^ length (print_nat (n div 10)) + int (n div 10)) * 10 + int (n mod 10)) rest"
      using isdigit_digit [OF d] code_digit [OF d] by simp
    also have "(acc * 10 ^ length (print_nat (n div 10)) + int (n div 10)) * 10 + int (n mod 10)
        = acc * 10 ^ length (print_nat n) + int n"
    proof -
      have "int (n div 10) * 10 + int (n mod 10) = int n"
        by (simp add: zdiv_int zmod_int)
      then show ?thesis
        unfolding p by (simp add: algebra_simps)
    qed
    finally show ?thesis .
  qed
qed

lemma print_nat_first:
  "\<exists>c cs. print_nat n = c # cs \<and> isdigit c"
proof (induction n rule: print_nat.induct)
  case (1 n)
  show ?case
  proof (cases "n < 10")
    case True
    have p: "print_nat n = [char_of (code (CHR ''0'') + n)]"
      using True by (subst print_nat.simps) simp
    show ?thesis unfolding p using isdigit_digit [OF True] by simp
  next
    case False
    have p: "print_nat n = print_nat (n div 10) @ [char_of (code (CHR ''0'') + n mod 10)]"
      using False by (subst print_nat.simps) simp
    obtain c cs where "print_nat (n div 10) = c # cs" "isdigit c"
      using "1.IH" [OF False] by blast
    then show ?thesis unfolding p by simp
  qed
qed

lemma length_print_nat:
  "n < 10 ^ k \<Longrightarrow> 0 < k \<Longrightarrow> length (print_nat n) \<le> k"
proof (induction k arbitrary: n)
  case 0
  then show ?case by simp
next
  case (Suc k)
  show ?case
  proof (cases "n < 10")
    case True
    have "print_nat n = [char_of (code (CHR ''0'') + n)]"
      using True by (subst print_nat.simps) simp
    then show ?thesis by simp
  next
    case False
    have p: "print_nat n = print_nat (n div 10) @ [char_of (code (CHR ''0'') + n mod 10)]"
      using False by (subst print_nat.simps) simp
    have k: "0 < k"
    proof (rule ccontr)
      assume "\<not> 0 < k"
      then have "n < 10" using Suc.prems(1) by simp
      then show False using False by simp
    qed
    have "n div 10 < 10 ^ k" using Suc.prems(1) by (simp add: less_mult_imp_div_less mult.commute)
    then have "length (print_nat (n div 10)) \<le> k" using Suc.IH k by blast
    then show ?thesis unfolding p by simp
  qed
qed

lemma strtol_print_int: "strtol (print_int e) = (if e < - (2 ^ 63) then - (2 ^ 63) else if e > 2 ^ 63 - 1 then 2 ^ 63 - 1 else e)"
proof (cases "e < 0")
  case True
  have "strtol_digits 0 (print_nat (nat (- e))) = - e"
    using strtol_digits_print_nat [of 0 "nat (- e)" "[]"] True by simp
  then show ?thesis
    using True by (simp add: strtol_def print_int_def isspace_def code_def Let_def)
next
  case False
  obtain c cs where p: "print_nat (nat e) = c # cs" and c: "isdigit c"
    using print_nat_first by blast
  have ns: "\<not> isspace c" "c \<noteq> CHR ''-''" "c \<noteq> CHR ''+''"
    using c by (auto simp: isdigit_def isspace_def code_def)
  have "strtol_digits 0 (c # cs) = e"
    using strtol_digits_print_nat [of 0 "nat e" "[]"] False by (simp add: p)
  then show ?thesis
    using False ns by (simp add: strtol_def print_int_def p Let_def)
qed

lemma atoi_print_int:
  assumes "- (2 ^ 31) \<le> e" and "e < 2 ^ 31"
  shows "atoi (print_int e) = e"
proof -
  have s: "strtol (print_int e) = e"
    using assms by (simp add: strtol_print_int)
  have "signed_take_bit (31::nat) e = e"
    using assms by (intro signed_take_bit_int_eq_self) simp_all
  then show ?thesis
    by (simp add: atoi_def s sint_sbintrunc')
qed

lemma length_print_int:
  assumes "- (2 ^ 31) \<le> e" and "e < 2 ^ 31"
  shows "length (print_int e) \<le> 11"
proof -
  have "nat \<bar>e\<bar> < 10 ^ 10" using assms by simp
  then have "length (print_nat (nat \<bar>e\<bar>)) \<le> 10"
    by (rule length_print_nat) simp
  then show ?thesis
    by (cases "e < 0") (simp_all add: print_int_def abs_if)
qed

lemma restart_copy_text:
  assumes "- (2 ^ 31) \<le> e" and "e < 2 ^ 31"
  shows "restart_copy neg e = (if neg then CHR ''-'' else CHR ''+'') # ''1E'' @ print_int e"
  using length_print_int [OF assms] by (simp add: restart_copy_def MAXBIDCHAR_def)


lemma restart_layout:
  assumes "- (2 ^ 31) \<le> e" and "e < 2 ^ 31"
  shows "strchr (restart_copy neg e) (CHR ''E'') = Some 2
       \<and> peek (restart_copy neg e) 1 = CHR ''1''
       \<and> negative (format_layout display lim editing (restart_copy neg e) buf 2) = neg
       \<and> realexp (format_layout display lim editing (restart_copy neg e) buf 2) = e
       \<and> inp (format_layout display lim editing (restart_copy neg e) buf 2) = 1
       \<and> last' (format_layout display lim editing (restart_copy neg e) buf 2) = 2"
proof -
  define copy where "copy = restart_copy neg e"
  have copy: "copy = (if neg then CHR ''-'' else CHR ''+'') # ''1E'' @ print_int e"
    unfolding copy_def by (rule restart_copy_text [OF assms])
  have E: "strchr copy (CHR ''E'') = Some 2"
    by (simp add: copy)
  have p0: "peek copy 0 = (if neg then CHR ''-'' else CHR ''+'')"
    and p1: "peek copy 1 = CHR ''1''"
    by (simp_all add: copy peek_def)
  have d: "drop 3 copy = print_int e"
    by (simp add: copy)
  have strip: "strip_zeroes copy 2 m = (2, m)" for m
    by (subst strip_zeroes.simps) simp
  have "negative (format_layout display lim editing copy buf 2) = neg"
    and "realexp (format_layout display lim editing copy buf 2) = e"
    and "inp (format_layout display lim editing copy buf 2) = 1"
    and "last' (format_layout display lim editing copy buf 2) = 2"
    using format_layout_keeps [of display lim editing copy buf 2]
    by (cases neg; simp add: p0 d strip atoi_print_int [OF assms])+
  then show ?thesis
    using E p1 unfolding copy_def by simp
qed

end
